theory Spec2Isabelle
  imports Complex_Main "HOL-Library.AList"
begin

section \<open>Data model\<close>

text \<open>
  The program is Python. Its numbers are floats; they are modelled as the real numbers, so
  rounding and the infinities are outside the model, and NaN appears only as the empty
  cell of a table. A position is a dictionary with the
  keys \<open>asset\<close>, \<open>quantity\<close>, \<open>position_type\<close>, \<open>entry_price\<close> and \<open>leverage\<close>; a key that is
  absent is \<open>None\<close>, and reading an absent key with \<open>position[key]\<close> raises \<open>KeyError\<close>.
\<close>

record position =
  asset :: "string option"
  quantity :: "real option"
  position_type :: "string option"
  entry_price :: "real option"
  leverage :: "real option"

text \<open>
  Exceptions. The \<open>ValueError\<close>s of the source are told apart by their message; the
  constructor keeps the values the message is formatted from.
\<close>

datatype error =
    KeyError string
  | ZeroDivisionError
  | MissingPrice string string
      \<comment> \<open>ValueError: No current price available for {asset} ({position_type})\<close>
  | UnknownPositionType string
      \<comment> \<open>ValueError: Unknown position type: {position_type}\<close>
  | EmptyPortfolio
      \<comment> \<open>ValueError: Portfolio must contain at least one position\<close>
  | TooManyPositions
      \<comment> \<open>ValueError: Maximum 20 positions allowed\<close>
  | MissingRequiredField nat string
      \<comment> \<open>ValueError: Position {i} missing required field: {field}\<close>
  | InvalidPositionType nat string
      \<comment> \<open>ValueError: Position {i} has invalid position_type: ...\<close>
  | InvalidQuantity nat real
      \<comment> \<open>ValueError: Position {i} has invalid quantity: ...\<close>
  | InvalidEntryPrice nat real
      \<comment> \<open>ValueError: Position {i} has invalid entry_price: ...\<close>
  | InvalidLeverage nat real
      \<comment> \<open>ValueError: Position {i} has invalid leverage: ...\<close>
  | NoDataAvailable
      \<comment> \<open>ValueError: No data available for any asset\<close>
  | NoSpotData string
      \<comment> \<open>ValueError: No spot data available for asset: {asset}\<close>
  | NoFuturesData string
      \<comment> \<open>ValueError: No futures data available for asset: {asset}\<close>
  | IndexError
  | NotANumber string
      \<comment> \<open>not an exception: a NaN cell that the source would go on computing with\<close>

text \<open>
  The keys of a price snapshot: the tuple \<open>(asset, position_type)\<close> or the bare asset
  string. The snapshot itself is a dictionary, here a map.
\<close>

datatype price_key = Pair_key string string | Asset_key string

type_synonym prices = "price_key \<rightharpoonup> real"

text \<open>\<open>position.get("leverage", 1.0)\<close>\<close>

definition position_leverage :: "position \<Rightarrow> real" where
  "position_leverage pos = (case leverage pos of None \<Rightarrow> 1 | Some l \<Rightarrow> l)"

section \<open>Valuation (src/analysis/valuation.py)\<close>

definition calculate_spot_value :: "real \<Rightarrow> real \<Rightarrow> real" where
  "calculate_spot_value q current_price = q * current_price"

text \<open>Python raises \<open>ZeroDivisionError\<close> on a float division by zero.\<close>

definition calculate_futures_long_value :: "real \<Rightarrow> real \<Rightarrow> real \<Rightarrow> real \<Rightarrow> error + real" where
  "calculate_futures_long_value q entry current_price lev =
     (if lev = 0 then Inl ZeroDivisionError
      else let margin = (q * entry) / lev;
               pnl = (current_price - entry) * q
           in Inr (margin + pnl))"

definition calculate_futures_short_value :: "real \<Rightarrow> real \<Rightarrow> real \<Rightarrow> real \<Rightarrow> error + real" where
  "calculate_futures_short_value q entry current_price lev =
     (if lev = 0 then Inl ZeroDivisionError
      else let margin = (q * entry) / lev;
               pnl = (entry - current_price) * q
           in Inr (margin + pnl))"

text \<open>
  Lines 90 to 94 of \<open>calculate_position_value\<close>: the composite key first, the bare asset key
  when the composite key gives nothing.
\<close>

definition lookup_current_price :: "prices \<Rightarrow> string \<Rightarrow> string \<Rightarrow> real option" where
  "lookup_current_price current_prices a t =
     (case current_prices (Pair_key a t) of
        None \<Rightarrow> current_prices (Asset_key a)
      | Some p \<Rightarrow> Some p)"

text \<open>Lines 99 to 106: the dispatch on the position type, once the price is known.\<close>

definition value_by_type :: "string \<Rightarrow> real \<Rightarrow> real \<Rightarrow> real \<Rightarrow> real \<Rightarrow> error + real" where
  "value_by_type t q entry lev current_price =
     (if t = ''spot'' then Inr (calculate_spot_value q current_price)
      else if t = ''futures_long'' then calculate_futures_long_value q entry current_price lev
      else if t = ''futures_short'' then calculate_futures_short_value q entry current_price lev
      else Inl (UnknownPositionType t))"

definition calculate_position_value :: "position \<Rightarrow> prices \<Rightarrow> error + real" where
  "calculate_position_value pos current_prices =
     (case asset pos of None \<Rightarrow> Inl (KeyError ''asset'') | Some a \<Rightarrow>
      case quantity pos of None \<Rightarrow> Inl (KeyError ''quantity'') | Some q \<Rightarrow>
      case position_type pos of None \<Rightarrow> Inl (KeyError ''position_type'') | Some t \<Rightarrow>
      case entry_price pos of None \<Rightarrow> Inl (KeyError ''entry_price'') | Some entry \<Rightarrow>
      case lookup_current_price current_prices a t of
        None \<Rightarrow> Inl (MissingPrice a t)
      | Some current_price \<Rightarrow> value_by_type t q entry (position_leverage pos) current_price)"

text \<open>The loop of \<open>calculate_portfolio_value\<close>, with the running total.\<close>

fun portfolio_value_loop :: "real \<Rightarrow> position list \<Rightarrow> prices \<Rightarrow> error + real" where
  "portfolio_value_loop total_value [] current_prices = Inr total_value"
| "portfolio_value_loop total_value (pos # rest) current_prices =
     (case calculate_position_value pos current_prices of
        Inl e \<Rightarrow> Inl e
      | Inr v \<Rightarrow> portfolio_value_loop (total_value + v) rest current_prices)"

definition calculate_portfolio_value :: "position list \<Rightarrow> prices \<Rightarrow> error + real" where
  "calculate_portfolio_value positions current_prices =
     portfolio_value_loop 0 positions current_prices"

definition apply_price_shock :: "prices \<Rightarrow> real \<Rightarrow> prices" where
  "apply_price_shock base_prices shock_pct =
     (\<lambda>k. map_option (\<lambda>price. price * (1 + shock_pct)) (base_prices k))"

fun delta_exposure_loop :: "real \<Rightarrow> position list \<Rightarrow> error + real" where
  "delta_exposure_loop delta [] = Inr delta"
| "delta_exposure_loop delta (pos # rest) =
     (case quantity pos of None \<Rightarrow> Inl (KeyError ''quantity'') | Some q \<Rightarrow>
      case position_type pos of None \<Rightarrow> Inl (KeyError ''position_type'') | Some t \<Rightarrow>
      if t = ''spot'' then delta_exposure_loop (delta + q) rest
      else if t = ''futures_long'' then delta_exposure_loop (delta + q) rest
      else if t = ''futures_short'' then delta_exposure_loop (delta - q) rest
      else delta_exposure_loop delta rest)"

definition calculate_delta_exposure :: "position list \<Rightarrow> error + real" where
  "calculate_delta_exposure positions = delta_exposure_loop 0 positions"

record sensitivity_row =
  price_change_pct :: real
  portfolio_value :: real
  pnl :: real
  return_pct :: real

fun sensitivity_loop ::
  "position list \<Rightarrow> prices \<Rightarrow> real \<Rightarrow> sensitivity_row list \<Rightarrow> real list \<Rightarrow> error + sensitivity_row list"
where
  "sensitivity_loop positions base_prices base_value table [] = Inr table"
| "sensitivity_loop positions base_prices base_value table (shock_pct # rest) =
     (case calculate_portfolio_value positions (apply_price_shock base_prices shock_pct) of
        Inl e \<Rightarrow> Inl e
      | Inr shocked_value \<Rightarrow>
          let pnl = shocked_value - base_value;
              return_pct = (if base_value \<noteq> 0 then pnl / base_value else 0)
          in sensitivity_loop positions base_prices base_value
               (table @ [\<lparr>price_change_pct = shock_pct * 100, portfolio_value = shocked_value,
                          pnl = pnl, return_pct = return_pct * 100\<rparr>]) rest)"

definition calculate_sensitivity_table ::
  "position list \<Rightarrow> prices \<Rightarrow> real list \<Rightarrow> error + sensitivity_row list"
where
  "calculate_sensitivity_table positions base_prices shock_range =
     (case calculate_portfolio_value positions base_prices of
        Inl e \<Rightarrow> Inl e
      | Inr base_value \<Rightarrow> sensitivity_loop positions base_prices base_value [] shock_range)"

text \<open>
  The signed quantity of one position, in the words of the specification: plus the quantity
  for spot and futures-long, minus the quantity for futures-short. A position of no known
  kind, or without a quantity, counts for nothing.
\<close>

definition signed_quantity :: "position \<Rightarrow> real" where
  "signed_quantity pos =
     (case (quantity pos, position_type pos) of
        (Some q, Some t) \<Rightarrow>
          (if t = ''spot'' \<or> t = ''futures_long'' then q
           else if t = ''futures_short'' then - q else 0)
      | _ \<Rightarrow> 0)"

definition has_quantity_and_type :: "position \<Rightarrow> bool" where
  "has_quantity_and_type pos = (quantity pos \<noteq> None \<and> position_type pos \<noteq> None)"

text \<open>What one row of the sensitivity table says about the shock it was computed for.\<close>

definition row_of_shock ::
  "position list \<Rightarrow> prices \<Rightarrow> real \<Rightarrow> real \<Rightarrow> sensitivity_row \<Rightarrow> bool"
where
  "row_of_shock ps base_prices base_value s r \<longleftrightarrow>
     price_change_pct r = s * 100
   \<and> calculate_portfolio_value ps (apply_price_shock base_prices s) = Inr (portfolio_value r)
   \<and> pnl r = portfolio_value r - base_value"

section \<open>Validation (src/analysis/riskprofile.py)\<close>

text \<open>
  The loop of \<open>_validate_positions\<close>, with the index that \<open>enumerate\<close> counts. The checks are
  in the order of the source: the four required fields, the position type, the quantity,
  the entry price, the leverage.
\<close>

fun validate_loop :: "nat \<Rightarrow> position list \<Rightarrow> error + unit" where
  "validate_loop i [] = Inr ()"
| "validate_loop i (pos # rest) =
     (case asset pos of None \<Rightarrow> Inl (MissingRequiredField i ''asset'') | Some a \<Rightarrow>
      case quantity pos of None \<Rightarrow> Inl (MissingRequiredField i ''quantity'') | Some q \<Rightarrow>
      case position_type pos of None \<Rightarrow> Inl (MissingRequiredField i ''position_type'') | Some t \<Rightarrow>
      case entry_price pos of None \<Rightarrow> Inl (MissingRequiredField i ''entry_price'') | Some entry \<Rightarrow>
      if t \<notin> set [''spot'', ''futures_long'', ''futures_short''] then Inl (InvalidPositionType i t)
      else if q \<le> 0 then Inl (InvalidQuantity i q)
      else if entry \<le> 0 then Inl (InvalidEntryPrice i entry)
      else let lev = position_leverage pos in
        if lev \<le> 0 \<or> lev > 125 then Inl (InvalidLeverage i lev)
        else validate_loop (Suc i) rest)"

definition validate_positions :: "position list \<Rightarrow> error + unit" where
  "validate_positions positions =
     (if positions = [] then Inl EmptyPortfolio
      else if length positions > 20 then Inl TooManyPositions
      else validate_loop 0 positions)"

text \<open>The failures that the specification calls \<open>InvalidPortfolio\<close>.\<close>

fun is_InvalidPortfolio :: "error \<Rightarrow> bool" where
  "is_InvalidPortfolio EmptyPortfolio = True"
| "is_InvalidPortfolio TooManyPositions = True"
| "is_InvalidPortfolio (MissingRequiredField i f) = True"
| "is_InvalidPortfolio (InvalidPositionType i t) = True"
| "is_InvalidPortfolio (InvalidQuantity i q) = True"
| "is_InvalidPortfolio (InvalidEntryPrice i e) = True"
| "is_InvalidPortfolio (InvalidLeverage i l) = True"
| "is_InvalidPortfolio _ = False"

text \<open>
  The conditions under which the specification says that validation fails, one definition
  for each, in its words.
\<close>

definition lacks_required_field :: "position \<Rightarrow> bool" where
  "lacks_required_field pos \<longleftrightarrow>
     asset pos = None \<or> quantity pos = None \<or> position_type pos = None \<or> entry_price pos = None"

definition type_outside_kinds :: "position \<Rightarrow> bool" where
  "type_outside_kinds pos =
     (case position_type pos of
        None \<Rightarrow> False
      | Some t \<Rightarrow> t \<noteq> ''spot'' \<and> t \<noteq> ''futures_long'' \<and> t \<noteq> ''futures_short'')"

definition quantity_not_positive :: "position \<Rightarrow> bool" where
  "quantity_not_positive pos = (case quantity pos of None \<Rightarrow> False | Some q \<Rightarrow> q \<le> 0)"

definition entry_price_not_positive :: "position \<Rightarrow> bool" where
  "entry_price_not_positive pos = (case entry_price pos of None \<Rightarrow> False | Some e \<Rightarrow> e \<le> 0)"

definition leverage_outside_range :: "position \<Rightarrow> bool" where
  "leverage_outside_range pos \<longleftrightarrow> \<not> (0 < position_leverage pos \<and> position_leverage pos \<le> 125)"

definition invalid_portfolio :: "position list \<Rightarrow> bool" where
  "invalid_portfolio positions \<longleftrightarrow>
     positions = [] \<or> length positions > 20
   \<or> list_ex lacks_required_field positions
   \<or> list_ex type_outside_kinds positions
   \<or> list_ex quantity_not_positive positions
   \<or> list_ex entry_price_not_positive positions
   \<or> list_ex leverage_outside_range positions"

definition position_ok :: "position \<Rightarrow> bool" where
  "position_ok pos \<longleftrightarrow>
     \<not> lacks_required_field pos \<and> \<not> type_outside_kinds pos \<and> \<not> quantity_not_positive pos
   \<and> \<not> entry_price_not_positive pos \<and> \<not> leverage_outside_range pos"

section \<open>Alert dashboard (backend/src/analysis/graph.py)\<close>

text \<open>The two keys of the risk metrics that the dashboard reads, each with \<open>get(key, 0)\<close>.\<close>

record risk_metrics =
  portfolio_volatility_annual :: "real option"
  sharpe_ratio :: "real option"

text \<open>
  Python's \<open>round(x, 1)\<close>: the nearest multiple of one tenth, a tie going to the even
  multiple.
\<close>

definition py_round1 :: "real \<Rightarrow> real" where
  "py_round1 x =
     (let y = x * 10; f = \<lfloor>y\<rfloor>; d = y - of_int f
      in of_int (if d < 1/2 then f else if d > 1/2 then f + 1
                 else if even f then f else f + 1) / 10)"

record component =
  score :: real
  status :: string

record health_components =
  hc_delta_neutral :: component
  hc_volatility :: component
  hc_sharpe_ratio :: component
  hc_leverage :: component

record liquidation_entry =
  liq_asset :: string
  liq_position_type :: string
  liquidation_price :: real
  liq_current_price :: real
  price_distance_pct :: real
  risk_level :: string

record dashboard =
  health_score :: real
  health_components :: health_components
  overall_risk :: string
  liquidation_positions :: "liquidation_entry list"
  rebalancing_needed :: bool
  rebalancing_urgency :: string
  current_delta :: real
  delta_normalized :: real

text \<open>
  The status of a score that was interpolated: the same chain of comparisons stands in the
  delta, volatility and leverage blocks.
\<close>

definition interpolated_status :: "real \<Rightarrow> string" where
  "interpolated_status s =
     (if s \<ge> 18 then ''good'' else if s \<ge> 10 then ''fair''
      else if s \<ge> 5 then ''warning'' else ''poor'')"

text \<open>\<open>abs(delta_exposure) / current_value if current_value > 0 else 0\<close>\<close>

definition normalized_delta :: "real \<Rightarrow> real \<Rightarrow> real" where
  "normalized_delta delta_exposure current_value =
     (if current_value > 0 then \<bar>delta_exposure\<bar> / current_value else 0)"

text \<open>Block 1, delta neutrality: the score before rounding, and the status.\<close>

definition delta_block :: "real \<Rightarrow> real \<times> string" where
  "delta_block dn =
     (if dn \<le> 0.05 then (25, ''excellent'')
      else if dn \<le> 0.5 then
        (let delta_score = max 0 (25 - ((dn - 0.05) / 0.45) * 25)
         in (delta_score, interpolated_status delta_score))
      else (0, ''poor''))"

text \<open>Block 2, volatility.\<close>

definition volatility_block :: "real \<Rightarrow> real \<times> string" where
  "volatility_block vol =
     (if vol \<le> 0.3 then (25, ''excellent'')
      else if vol \<le> 1.0 then
        (let vol_score = max 0 (25 - ((vol - 0.3) / 0.7) * 25)
         in (vol_score, interpolated_status vol_score))
      else (0, ''poor''))"

text \<open>Block 3, Sharpe ratio: a market-neutral portfolio gets the fixed score.\<close>

definition sharpe_block :: "real \<Rightarrow> real \<Rightarrow> real \<times> string" where
  "sharpe_block dn sharpe =
     (let is_market_neutral = (dn < 0.05) in
      if is_market_neutral then (12.5, ''fair'')
      else if sharpe \<ge> 1.0 then (25, ''excellent'')
      else if sharpe \<ge> 0.5 then (18 + ((sharpe - 0.5) / 0.5) * 7, ''good'')
      else if sharpe \<ge> 0.0 then (10 + (sharpe / 0.5) * 8, ''fair'')
      else if sharpe \<ge> - 0.5 then (5 + ((sharpe + 0.5) / 0.5) * 5, ''warning'')
      else (0, ''poor''))"

text \<open>\<open>max((pos.get("leverage", 1.0) for pos in positions), default=1.0)\<close>\<close>

definition max_leverage :: "position list \<Rightarrow> real" where
  "max_leverage positions =
     (case map position_leverage positions of
        [] \<Rightarrow> 1
      | l # ls \<Rightarrow> fold max ls l)"

text \<open>Block 4, leverage.\<close>

definition leverage_block :: "real \<Rightarrow> real \<times> string" where
  "leverage_block m =
     (if m \<le> 2.0 then (25, ''excellent'')
      else if m \<le> 20.0 then
        (let lev_score = max 0 (25 - ((m - 2.0) / 18.0) * 25)
         in (lev_score, interpolated_status lev_score))
      else (0, ''poor''))"

definition rounded_component :: "real \<times> string \<Rightarrow> component" where
  "rounded_component b = \<lparr>score = py_round1 (fst b), status = snd b\<rparr>"

definition calculate_health_components ::
  "risk_metrics \<Rightarrow> real \<Rightarrow> position list \<Rightarrow> real \<Rightarrow> health_components"
where
  "calculate_health_components rm current_value positions delta_exposure =
     (let dn = normalized_delta delta_exposure current_value;
          vol = (case portfolio_volatility_annual rm of None \<Rightarrow> 0 | Some v \<Rightarrow> v);
          sharpe = (case sharpe_ratio rm of None \<Rightarrow> 0 | Some s \<Rightarrow> s)
      in \<lparr>hc_delta_neutral = rounded_component (delta_block dn),
          hc_volatility = rounded_component (volatility_block vol),
          hc_sharpe_ratio = rounded_component (sharpe_block dn sharpe),
          hc_leverage = rounded_component (leverage_block (max_leverage positions))\<rparr>)"

text \<open>\<open>sum(comp["score"] for comp in health_components.values())\<close>, in the order of insertion.\<close>

definition sum_of_scores :: "health_components \<Rightarrow> real" where
  "sum_of_scores hc =
     0 + score (hc_delta_neutral hc) + score (hc_volatility hc)
       + score (hc_sharpe_ratio hc) + score (hc_leverage hc)"

text \<open>
  The liquidation loop. A position is assessed when it is a futures position with a leverage
  above 1. The risk level is decided on the signed distance; the entry that is reported
  carries its absolute value. A current price of zero makes the division raise.
\<close>

fun liquidation_loop ::
  "liquidation_entry list \<Rightarrow> position list \<Rightarrow> prices \<Rightarrow> error + liquidation_entry list"
where
  "liquidation_loop liquidation_risks [] current_prices = Inr liquidation_risks"
| "liquidation_loop liquidation_risks (pos # rest) current_prices =
     (case position_type pos of None \<Rightarrow> Inl (KeyError ''position_type'') | Some t \<Rightarrow>
      if (t = ''futures_long'' \<or> t = ''futures_short'') \<and> position_leverage pos > 1 then
        (case asset pos of None \<Rightarrow> Inl (KeyError ''asset'') | Some a \<Rightarrow>
         let lev = position_leverage pos;
             entry = (case entry_price pos of None \<Rightarrow> 0 | Some e \<Rightarrow> e);
             current_price = (case current_prices (Pair_key a t) of None \<Rightarrow> entry | Some p \<Rightarrow> p)
         in if current_price = 0 then Inl ZeroDivisionError
            else
              let liq = (if t = ''futures_long'' then entry * (1 - 0.9 / lev)
                         else entry * (1 + 0.9 / lev));
                  distance = (if t = ''futures_long''
                              then ((current_price - liq) / current_price) * 100
                              else ((liq - current_price) / current_price) * 100);
                  level = (if distance > 50 then ''safe''
                           else if distance > 25 then ''moderate'' else ''high'')
              in liquidation_loop
                   (liquidation_risks @
                      [\<lparr>liq_asset = a, liq_position_type = t, liquidation_price = liq,
                        liq_current_price = current_price, price_distance_pct = \<bar>distance\<bar>,
                        risk_level = level\<rparr>])
                   rest current_prices)
      else liquidation_loop liquidation_risks rest current_prices)"

definition overall_liquidation_risk :: "liquidation_entry list \<Rightarrow> string" where
  "overall_liquidation_risk liquidation_risks =
     (if liquidation_risks \<noteq> [] then
        (if list_ex (\<lambda>r. risk_level r = ''high'') liquidation_risks then ''high''
         else if list_ex (\<lambda>r. risk_level r = ''moderate'') liquidation_risks then ''moderate''
         else ''low'')
      else ''low'')"

definition calculate_alert_dashboard ::
  "risk_metrics \<Rightarrow> real \<Rightarrow> position list \<Rightarrow> prices \<Rightarrow> real \<Rightarrow> error + dashboard"
where
  "calculate_alert_dashboard rm current_value positions current_prices delta_exposure =
     (let hc = calculate_health_components rm current_value positions delta_exposure;
          dn = normalized_delta delta_exposure current_value
      in case liquidation_loop [] positions current_prices of
           Inl e \<Rightarrow> Inl e
         | Inr liquidation_risks \<Rightarrow>
             Inr \<lparr>health_score = sum_of_scores hc,
                  health_components = hc,
                  overall_risk = overall_liquidation_risk liquidation_risks,
                  liquidation_positions = liquidation_risks,
                  rebalancing_needed = (dn > 0.05),
                  rebalancing_urgency =
                    (if dn > 0.15 then ''high'' else if dn > 0.05 then ''medium'' else ''none''),
                  current_delta = delta_exposure,
                  delta_normalized = dn\<rparr>)"

text \<open>
  The liquidation assessment in the words of the specification: which positions are
  assessed, the liquidation price, the distance of the current price from it in percent of
  the current price, and the level that a distance gives.
\<close>

definition is_assessed :: "position \<Rightarrow> bool" where
  "is_assessed pos =
     (case position_type pos of
        None \<Rightarrow> False
      | Some t \<Rightarrow> (t = ''futures_long'' \<or> t = ''futures_short'') \<and> position_leverage pos > 1)"

definition liquidation_price_of :: "string \<Rightarrow> real \<Rightarrow> real \<Rightarrow> real" where
  "liquidation_price_of t entry lev =
     (if t = ''futures_long'' then entry * (1 - 0.9 / lev) else entry * (1 + 0.9 / lev))"

definition distance_pct_of :: "string \<Rightarrow> real \<Rightarrow> real \<Rightarrow> real" where
  "distance_pct_of t current_price liq =
     (if t = ''futures_long'' then (current_price - liq) / current_price * 100
      else (liq - current_price) / current_price * 100)"

definition level_of_distance :: "real \<Rightarrow> string" where
  "level_of_distance d =
     (if d > 50 then ''safe'' else if 25 < d \<and> d \<le> 50 then ''moderate'' else ''high'')"

definition entry_price_or_zero :: "position \<Rightarrow> real" where
  "entry_price_or_zero pos = (case entry_price pos of None \<Rightarrow> 0 | Some e \<Rightarrow> e)"

definition assessed_price :: "prices \<Rightarrow> position \<Rightarrow> real" where
  "assessed_price current_prices pos =
     (case (asset pos, position_type pos) of
        (Some a, Some t) \<Rightarrow>
          (case current_prices (Pair_key a t) of
             None \<Rightarrow> entry_price_or_zero pos
           | Some p \<Rightarrow> p)
      | _ \<Rightarrow> entry_price_or_zero pos)"

definition assessment_of :: "prices \<Rightarrow> position \<Rightarrow> liquidation_entry \<Rightarrow> bool" where
  "assessment_of current_prices pos r \<longleftrightarrow>
     position_type pos = Some (liq_position_type r)
   \<and> asset pos = Some (liq_asset r)
   \<and> liq_current_price r = assessed_price current_prices pos
   \<and> liquidation_price r
       = liquidation_price_of (liq_position_type r) (entry_price_or_zero pos) (position_leverage pos)
   \<and> risk_level r
       = level_of_distance
           (distance_pct_of (liq_position_type r) (liq_current_price r) (liquidation_price r))
   \<and> price_distance_pct r
       = \<bar>distance_pct_of (liq_position_type r) (liq_current_price r) (liquidation_price r)\<bar>"

text \<open>
  The worst level of a list of levels as the specification has it: the levels of the
  positions are safe, moderate and high, and low stands for no position at all.
\<close>

definition worst_level :: "string list \<Rightarrow> string" where
  "worst_level levels =
     (if levels = [] then ''low''
      else if ''high'' \<in> set levels then ''high''
      else if ''moderate'' \<in> set levels then ''moderate''
      else ''safe'')"

text \<open>The input of \<open>test_alert_dashboard\<close> in backend/test_graph_endpoint.py.\<close>

definition test_risk_metrics :: risk_metrics where
  "test_risk_metrics = \<lparr>portfolio_volatility_annual = Some 0.45, sharpe_ratio = Some 1.8\<rparr>"

definition test_positions :: "position list" where
  "test_positions =
     [\<lparr>asset = Some ''BTC'', quantity = Some 1, position_type = Some ''spot'',
       entry_price = Some 95000, leverage = Some 1\<rparr>,
      \<lparr>asset = Some ''BTC'', quantity = Some (- 0.95), position_type = Some ''futures_short'',
       entry_price = Some 95500, leverage = Some 3\<rparr>]"

definition test_prices :: prices where
  "test_prices =
     [Pair_key ''BTC'' ''spot'' \<mapsto> 96000, Pair_key ''BTC'' ''futures_short'' \<mapsto> 96200]"

definition test_dashboard :: dashboard where
  "test_dashboard =
     \<lparr>health_score = 80.7,
      health_components =
        \<lparr>hc_delta_neutral = \<lparr>score = 25, status = ''excellent''\<rparr>,
         hc_volatility = \<lparr>score = 19.6, status = ''good''\<rparr>,
         hc_sharpe_ratio = \<lparr>score = 12.5, status = ''fair''\<rparr>,
         hc_leverage = \<lparr>score = 23.6, status = ''good''\<rparr>\<rparr>,
      overall_risk = ''moderate'',
      liquidation_positions =
        [\<lparr>liq_asset = ''BTC'', liq_position_type = ''futures_short'',
          liquidation_price = 124150, liq_current_price = 96200,
          price_distance_pct = 1075 / 37, risk_level = ''moderate''\<rparr>],
      rebalancing_needed = False, rebalancing_urgency = ''none'',
      current_delta = 200, delta_normalized = 1 / 500\<rparr>"

section \<open>Time series alignment (src/analysis/data_service.py)\<close>

text \<open>
  A timestamp is an instant counted in seconds; a day has 86400 of them. A frame is the
  list of its rows. A daily spot frame has the columns \<open>timestamp\<close> and \<open>close\<close>, a daily
  futures frame the columns \<open>timestamp\<close>, \<open>mark_price\<close> and \<open>funding_rate\<close>. A dictionary
  from assets to frames is the list of its items in the order of insertion.
\<close>

type_synonym timestamp = int

definition one_day :: int where
  "one_day = 86400"

type_synonym spot_frame = "(timestamp \<times> real) list"

type_synonym futures_frame = "(timestamp \<times> real \<times> real) list"

text \<open>
  The columns of the aligned table: \<open>{asset}_spot\<close>, \<open>{asset}_futures_mark\<close> and
  \<open>{asset}_funding\<close>. A cell is \<open>None\<close> where pandas has NaN.
\<close>

datatype column = Spot_column string | Futures_mark_column string | Funding_column string

record aligned_table =
  timestamps :: "timestamp list"
  columns :: "(column \<times> real option list) list"

text \<open>
  The warnings of the alignment, each with the asset and the count that its message is
  formatted from:
  \<open>{asset} spot: {na_count} missing values at the beginning (no forward-fill source)\<close>,
  \<open>{asset} futures: {na_count} missing mark prices\<close> and
  \<open>{asset} funding: {na_count} missing funding rates\<close>.
\<close>

datatype gap_warning = Spot_gap string nat | Mark_gap string nat | Funding_gap string nat

text \<open>\<open>pd.date_range(start, end, freq="D")\<close>: from the start in steps of a day, up to the end.\<close>

definition date_range :: "timestamp \<Rightarrow> timestamp \<Rightarrow> timestamp list" where
  "date_range start finish =
     map (\<lambda>k. start + int k * one_day) [0 ..< nat ((finish - start) div one_day + 1)]"

text \<open>
  \<open>pd.merge(aligned, frame, on="timestamp", how="left")\<close> with a frame of one value
  column: every row of the table is kept, in its order, once for each row of the frame
  with its timestamp, and once with NaN when the frame has none.
\<close>

definition matching_values :: "(timestamp \<times> real) list \<Rightarrow> timestamp \<Rightarrow> real list" where
  "matching_values frame t = map snd (filter (\<lambda>row. fst row = t) frame)"

definition joined_cells :: "(timestamp \<times> real) list \<Rightarrow> timestamp \<Rightarrow> real option list" where
  "joined_cells frame t =
     (case matching_values frame t of [] \<Rightarrow> [None] | vs \<Rightarrow> map Some vs)"

definition repeat_rows :: "nat list \<Rightarrow> 'a list \<Rightarrow> 'a list" where
  "repeat_rows counts cells = concat (map (\<lambda>(n, x). replicate n x) (zip counts cells))"

definition merge_left ::
  "aligned_table \<Rightarrow> column \<Rightarrow> (timestamp \<times> real) list \<Rightarrow> aligned_table"
where
  "merge_left aligned name frame =
     (let counts = map (\<lambda>t. length (joined_cells frame t)) (timestamps aligned)
      in \<lparr>timestamps = repeat_rows counts (timestamps aligned),
          columns = map (\<lambda>(c, cells). (c, repeat_rows counts cells)) (columns aligned)
                    @ [(name, concat (map (joined_cells frame) (timestamps aligned)))]\<rparr>)"

text \<open>A column of the table, and the assignment \<open>aligned[name] = f(aligned[name])\<close>.\<close>

definition column_cells :: "aligned_table \<Rightarrow> column \<Rightarrow> real option list" where
  "column_cells aligned name =
     (case map_of (columns aligned) name of None \<Rightarrow> [] | Some cells \<Rightarrow> cells)"

definition update_column ::
  "column \<Rightarrow> (real option list \<Rightarrow> real option list) \<Rightarrow> aligned_table \<Rightarrow> aligned_table"
where
  "update_column name f aligned =
     aligned\<lparr>columns :=
       map (\<lambda>(c, cells). if c = name then (c, f cells) else (c, cells)) (columns aligned)\<rparr>"

text \<open>\<open>ffill\<close>, \<open>bfill\<close>, \<open>fillna(0.0)\<close>, \<open>isna().any()\<close> and \<open>isna().sum()\<close> of a column.\<close>

fun ffill_from :: "real option \<Rightarrow> real option list \<Rightarrow> real option list" where
  "ffill_from previous [] = []"
| "ffill_from previous (Some v # cells) = Some v # ffill_from (Some v) cells"
| "ffill_from previous (None # cells) = previous # ffill_from previous cells"

definition ffill :: "real option list \<Rightarrow> real option list" where
  "ffill cells = ffill_from None cells"

fun bfill :: "real option list \<Rightarrow> real option list" where
  "bfill [] = []"
| "bfill (Some v # cells) = Some v # bfill cells"
| "bfill (None # cells) =
     (case bfill cells of [] \<Rightarrow> [None] | next_cell # filled \<Rightarrow> next_cell # next_cell # filled)"

definition fillna_zero :: "real option list \<Rightarrow> real option list" where
  "fillna_zero cells = map (\<lambda>cell. case cell of None \<Rightarrow> Some 0 | Some v \<Rightarrow> Some v) cells"

definition isna_any :: "real option list \<Rightarrow> bool" where
  "isna_any cells \<longleftrightarrow> None \<in> set cells"

definition isna_sum :: "real option list \<Rightarrow> nat" where
  "isna_sum cells = length (filter (\<lambda>cell. cell = None) cells)"

text \<open>The loop over the spot frames.\<close>

fun align_spot ::
  "aligned_table \<Rightarrow> gap_warning list \<Rightarrow> (string \<times> spot_frame) list
     \<Rightarrow> aligned_table \<times> gap_warning list"
where
  "align_spot aligned warnings [] = (aligned, warnings)"
| "align_spot aligned warnings ((a, frame) # rest) =
     (let merged = merge_left aligned (Spot_column a) frame;
          filled = update_column (Spot_column a) ffill merged
      in if isna_any (column_cells filled (Spot_column a)) then
           (let na_count = isna_sum (column_cells filled (Spot_column a))
            in align_spot (update_column (Spot_column a) bfill filled)
                 (warnings @ [Spot_gap a na_count]) rest)
         else align_spot filled warnings rest)"

text \<open>The loop over the futures frames: both columns are merged and forward-filled first.\<close>

fun align_futures ::
  "aligned_table \<Rightarrow> gap_warning list \<Rightarrow> (string \<times> futures_frame) list
     \<Rightarrow> aligned_table \<times> gap_warning list"
where
  "align_futures aligned warnings [] = (aligned, warnings)"
| "align_futures aligned warnings ((a, frame) # rest) =
     (let mark_df = map (\<lambda>(t, mark, funding). (t, mark)) frame;
          aligned1 = update_column (Futures_mark_column a) ffill
                       (merge_left aligned (Futures_mark_column a) mark_df);
          funding_df = map (\<lambda>(t, mark, funding). (t, funding)) frame;
          aligned2 = update_column (Funding_column a) ffill
                       (merge_left aligned1 (Funding_column a) funding_df);
          (aligned3, warnings3) =
            (if isna_any (column_cells aligned2 (Futures_mark_column a)) then
               (update_column (Futures_mark_column a) bfill aligned2,
                warnings @ [Mark_gap a (isna_sum (column_cells aligned2 (Futures_mark_column a)))])
             else (aligned2, warnings));
          (aligned4, warnings4) =
            (if isna_any (column_cells aligned3 (Funding_column a)) then
               (update_column (Funding_column a) fillna_zero aligned3,
                warnings3 @ [Funding_gap a (isna_sum (column_cells aligned3 (Funding_column a)))])
             else (aligned3, warnings3))
      in align_futures aligned4 warnings4 rest)"

definition all_timestamps ::
  "(string \<times> spot_frame) list \<Rightarrow> (string \<times> futures_frame) list \<Rightarrow> timestamp list"
where
  "all_timestamps spot_data futures_data =
     concat (map (\<lambda>(a, frame). map fst frame) spot_data)
     @ concat (map (\<lambda>(a, frame). map fst frame) futures_data)"

definition align_time_series ::
  "(string \<times> spot_frame) list \<Rightarrow> (string \<times> futures_frame) list
     \<Rightarrow> error + aligned_table \<times> gap_warning list"
where
  "align_time_series spot_data futures_data =
     (let stamps = all_timestamps spot_data futures_data
      in if stamps = [] then Inl NoDataAvailable
         else
           let min_ts = Min (set stamps);
               max_ts = Max (set stamps);
               aligned = \<lparr>timestamps = date_range min_ts max_ts, columns = []\<rparr>;
               (with_spot, spot_warnings) = align_spot aligned [] spot_data
           in Inr (align_futures with_spot spot_warnings futures_data))"

text \<open>
  What the loops compute for one frame, when no row of the table is repeated: the cells of
  a spot or mark column, the cells of a funding column, and the warnings.
\<close>

definition table_ok :: "aligned_table \<Rightarrow> bool" where
  "table_ok aligned \<longleftrightarrow>
     list_all (\<lambda>(c, cells). length cells = length (timestamps aligned)) (columns aligned)"

definition price_cells :: "timestamp list \<Rightarrow> (timestamp \<times> real) list \<Rightarrow> real option list" where
  "price_cells grid frame =
     (let cells = ffill (map (map_of frame) grid)
      in if isna_any cells then bfill cells else cells)"

definition funding_cells :: "timestamp list \<Rightarrow> (timestamp \<times> real) list \<Rightarrow> real option list" where
  "funding_cells grid frame =
     (let cells = ffill (map (map_of frame) grid)
      in if isna_any cells then fillna_zero cells else cells)"

definition gaps_left :: "timestamp list \<Rightarrow> (timestamp \<times> real) list \<Rightarrow> nat" where
  "gaps_left grid frame = isna_sum (ffill (map (map_of frame) grid))"

definition mark_frame :: "futures_frame \<Rightarrow> (timestamp \<times> real) list" where
  "mark_frame frame = map (\<lambda>(t, mark, funding). (t, mark)) frame"

definition funding_frame :: "futures_frame \<Rightarrow> (timestamp \<times> real) list" where
  "funding_frame frame = map (\<lambda>(t, mark, funding). (t, funding)) frame"

definition spot_columns_of ::
  "timestamp list \<Rightarrow> (string \<times> spot_frame) list \<Rightarrow> (column \<times> real option list) list"
where
  "spot_columns_of grid spot_data =
     map (\<lambda>(a, frame). (Spot_column a, price_cells grid frame)) spot_data"

definition spot_warnings_of ::
  "timestamp list \<Rightarrow> (string \<times> spot_frame) list \<Rightarrow> gap_warning list"
where
  "spot_warnings_of grid spot_data =
     concat (map (\<lambda>(a, frame).
        if gaps_left grid frame > 0 then [Spot_gap a (gaps_left grid frame)] else []) spot_data)"

definition futures_columns_of ::
  "timestamp list \<Rightarrow> (string \<times> futures_frame) list \<Rightarrow> (column \<times> real option list) list"
where
  "futures_columns_of grid futures_data =
     concat (map (\<lambda>(a, frame).
        [(Futures_mark_column a, price_cells grid (mark_frame frame)),
         (Funding_column a, funding_cells grid (funding_frame frame))]) futures_data)"

definition futures_warnings_of ::
  "timestamp list \<Rightarrow> (string \<times> futures_frame) list \<Rightarrow> gap_warning list"
where
  "futures_warnings_of grid futures_data =
     concat (map (\<lambda>(a, frame).
        (if gaps_left grid (mark_frame frame) > 0
         then [Mark_gap a (gaps_left grid (mark_frame frame))] else [])
        @ (if gaps_left grid (funding_frame frame) > 0
           then [Funding_gap a (gaps_left grid (funding_frame frame))] else [])) futures_data)"

text \<open>
  A daily frame has one row for a day, stamped at midnight; this is what
  \<open>resample_to_daily\<close> returns. The items of a dictionary have distinct keys.
\<close>

definition daily_stamps :: "timestamp list \<Rightarrow> bool" where
  "daily_stamps stamps \<longleftrightarrow> distinct stamps \<and> list_all (\<lambda>t. t mod one_day = 0) stamps"

definition daily_input ::
  "(string \<times> spot_frame) list \<Rightarrow> (string \<times> futures_frame) list \<Rightarrow> bool"
where
  "daily_input spot_data futures_data \<longleftrightarrow>
     distinct (map fst spot_data) \<and> distinct (map fst futures_data)
   \<and> list_all (\<lambda>(a, frame). daily_stamps (map fst frame)) spot_data
   \<and> list_all (\<lambda>(a, frame). daily_stamps (map fst frame)) futures_data"

text \<open>
  The rows of the table that lie before the first observation of a frame: forward-fill
  leaves their cells empty, and they are the cells that backward-fill, or the zero of the
  funding rate, has to fill. For a frame without rows these are all the rows.
\<close>

definition leading_gaps :: "timestamp list \<Rightarrow> timestamp list \<Rightarrow> nat" where
  "leading_gaps grid stamps = length (filter (\<lambda>t. list_all (\<lambda>s. t < s) stamps) grid)"

text \<open>The column that a warning is about.\<close>

fun warning_column :: "gap_warning \<Rightarrow> column" where
  "warning_column (Spot_gap a n) = Spot_column a"
| "warning_column (Mark_gap a n) = Futures_mark_column a"
| "warning_column (Funding_gap a n) = Funding_column a"

definition warnings_about :: "column \<Rightarrow> gap_warning list \<Rightarrow> gap_warning list" where
  "warnings_about name warnings = filter (\<lambda>w. warning_column w = name) warnings"

definition expected_warning :: "column \<Rightarrow> nat \<Rightarrow> gap_warning list" where
  "expected_warning name n =
     (if n = 0 then []
      else case name of
             Spot_column a \<Rightarrow> [Spot_gap a n]
           | Futures_mark_column a \<Rightarrow> [Mark_gap a n]
           | Funding_column a \<Rightarrow> [Funding_gap a n])"

text \<open>The daily timeline of the aligned table: from the first to the last timestamp.\<close>

definition timeline ::
  "(string \<times> spot_frame) list \<Rightarrow> (string \<times> futures_frame) list \<Rightarrow> timestamp list"
where
  "timeline spot_data futures_data =
     date_range (Min (set (all_timestamps spot_data futures_data)))
                (Max (set (all_timestamps spot_data futures_data)))"

text \<open>
  An example: the spot frame of A has one row on day 2, that of B one row on day 0, and
  the futures frame of C one row on day 1.
\<close>

definition example_spot :: "(string \<times> spot_frame) list" where
  "example_spot = [(''A'', [(172800, 100)]), (''B'', [(0, 50)])]"

definition example_futures :: "(string \<times> futures_frame) list" where
  "example_futures = [(''C'', [(86400, 7, 0.01)])]"

definition example_aligned :: aligned_table where
  "example_aligned =
     \<lparr>timestamps = [0, 86400, 172800],
      columns =
        [(Spot_column ''A'', [Some 100, Some 100, Some 100]),
         (Spot_column ''B'', [Some 50, Some 50, Some 50]),
         (Futures_mark_column ''C'', [Some 7, Some 7, Some 7]),
         (Funding_column ''C'', [Some 0, Some 0.01, Some 0.01])]\<rparr>"

section \<open>Fetching and resampling (src/analysis/data_service.py)\<close>

text \<open>
  The database is outside the program. Each of its three queries, for an asset and the
  window of the request, either raises (\<open>asyncio.gather\<close> then hands the exception over as
  the result) or returns a list of rows; of a row the model keeps the timestamp and the
  one value that is read: \<open>close\<close>, or \<open>funding_rate\<close>.
\<close>

datatype fetched = Raised | Rows "(timestamp \<times> real) list"

record database =
  get_ohlcv_data :: "string \<Rightarrow> fetched"
  get_mark_klines :: "string \<Rightarrow> fetched"
  get_funding_rates :: "string \<Rightarrow> fetched"

text \<open>
  What the function writes to the log while it processes the results, with the level of
  each line. The two opening lines, which print the clock, are left out.
\<close>

datatype log_level = INFO | WARNING

datatype fetch_event =
    Spot_failed string
      \<comment> \<open>warning: Failed to fetch spot data for {asset}: ...\<close>
  | Spot_missing string
      \<comment> \<open>warning: No spot data available for {asset}\<close>
  | Spot_fetched string nat
      \<comment> \<open>info: Fetched {n} spot candles for {asset}\<close>
  | Futures_failed string
      \<comment> \<open>warning: Failed to fetch futures data for {asset}: ...\<close>
  | Mark_missing string
      \<comment> \<open>warning: No mark price data available for {asset}\<close>
  | Futures_fetched string nat nat
      \<comment> \<open>info: Fetched {n} mark prices and {m} funding rates for {asset}\<close>
  | Days_available int
      \<comment> \<open>info: Actual data availability: {min_days} days\<close>

type_synonym fetch_log = "(log_level \<times> fetch_event) list"

text \<open>
  A raw futures frame has the columns \<open>timestamp\<close>, \<open>mark_price\<close> and \<open>funding_rate\<close>; the
  funding rate is NaN where the left merge found no funding row for a mark timestamp.
\<close>

type_synonym raw_futures_frame = "(timestamp \<times> real \<times> real option) list"

text \<open>The loop over the spot results. \<open>sort_values\<close> is taken to keep the order of equal timestamps.\<close>

fun process_spot ::
  "(string \<times> spot_frame) list \<Rightarrow> fetch_log \<Rightarrow> (string \<times> fetched) list
     \<Rightarrow> (string \<times> spot_frame) list \<times> fetch_log"
where
  "process_spot spot_data_dict logged [] = (spot_data_dict, logged)"
| "process_spot spot_data_dict logged ((a, Raised) # rest) =
     process_spot spot_data_dict (logged @ [(WARNING, Spot_failed a)]) rest"
| "process_spot spot_data_dict logged ((a, Rows result) # rest) =
     (if result = [] then process_spot spot_data_dict (logged @ [(WARNING, Spot_missing a)]) rest
      else
        let df = sort_key fst result
        in process_spot (AList.update a df spot_data_dict)
             (logged @ [(INFO, Spot_fetched a (length df))]) rest)"

text \<open>\<open>pd.merge(mark_df, funding_df, on="timestamp", how="left")\<close>\<close>

definition merge_funding ::
  "(timestamp \<times> real) list \<Rightarrow> (timestamp \<times> real) list \<Rightarrow> raw_futures_frame"
where
  "merge_funding mark_df funding_df =
     concat (map (\<lambda>(t, mark).
        case matching_values funding_df t of
          [] \<Rightarrow> [(t, mark, None)]
        | rates \<Rightarrow> map (\<lambda>rate. (t, mark, Some rate)) rates) mark_df)"

text \<open>The loop over the futures results.\<close>

fun process_futures ::
  "(string \<times> raw_futures_frame) list \<Rightarrow> fetch_log \<Rightarrow> (string \<times> fetched \<times> fetched) list
     \<Rightarrow> (string \<times> raw_futures_frame) list \<times> fetch_log"
where
  "process_futures futures_data_dict logged [] = (futures_data_dict, logged)"
| "process_futures futures_data_dict logged ((a, mark_result, funding_result) # rest) =
     (case (mark_result, funding_result) of
        (Rows mark_rows, Rows funding_rows) \<Rightarrow>
          if mark_rows = [] then
            process_futures futures_data_dict (logged @ [(WARNING, Mark_missing a)]) rest
          else
            let mark_df = mark_rows;
                funding_df = funding_rows;
                futures_df =
                  (if funding_df \<noteq> [] then merge_funding mark_df funding_df
                   else map (\<lambda>(t, mark). (t, mark, Some 0)) mark_df);
                sorted_df = sort_key fst futures_df
            in process_futures (AList.update a sorted_df futures_data_dict)
                 (logged @ [(INFO, Futures_fetched a (length mark_df) (length funding_df))]) rest
      | _ \<Rightarrow> process_futures futures_data_dict (logged @ [(WARNING, Futures_failed a)]) rest)"

text \<open>
  The days available: the whole days between the first and the last row of a spot frame,
  the smallest over the spot frames, and the days of the request at most.
\<close>

fun days_loop :: "int \<Rightarrow> (string \<times> spot_frame) list \<Rightarrow> int" where
  "days_loop min_days [] = min_days"
| "days_loop min_days ((a, df) # rest) =
     (let days_available = (Max (set (map fst df)) - Min (set (map fst df))) div one_day
      in days_loop (min min_days days_available) rest)"

definition fetch_portfolio_data ::
  "database \<Rightarrow> string list \<Rightarrow> int
     \<Rightarrow> (string \<times> spot_frame) list \<times> (string \<times> raw_futures_frame) list \<times> int \<times> fetch_log"
where
  "fetch_portfolio_data db assets lookback_days =
     (let spot_results = map (get_ohlcv_data db) assets;
          mark_price_results = map (get_mark_klines db) assets;
          funding_rate_results = map (get_funding_rates db) assets;
          (spot_data_dict, log1) = process_spot [] [] (zip assets spot_results);
          (futures_data_dict, log2) =
            process_futures [] log1 (zip assets (zip mark_price_results funding_rate_results));
          min_days = days_loop lookback_days spot_data_dict
      in (spot_data_dict, futures_data_dict, min_days, log2 @ [(INFO, Days_available min_days)]))"

text \<open>
  Resampling to days. The rows of a frame are grouped by the day of their timestamp, in
  the order of time; a day without rows has no group, which is what \<open>dropna\<close> leaves of it.
\<close>

definition day_of :: "timestamp \<Rightarrow> timestamp" where
  "day_of t = t - t mod one_day"

fun group_days :: "(timestamp \<times> 'a) list \<Rightarrow> (timestamp \<times> 'a \<times> 'a list) list" where
  "group_days [] = []"
| "group_days ((t, x) # rows) =
     (case group_days rows of
        [] \<Rightarrow> [(day_of t, x, [])]
      | (d, y, ys) # groups \<Rightarrow>
          if d = day_of t then (d, x, y # ys) # groups
          else (day_of t, x, []) # (d, y, ys) # groups)"

text \<open>Spot: the last close of each day.\<close>

definition daily_spot_frame :: "spot_frame \<Rightarrow> spot_frame" where
  "daily_spot_frame df =
     map (\<lambda>(d, x, xs). (d, last (x # xs))) (group_days (sort_key fst df))"

text \<open>
  Futures: the last mark price of each day and the mean of the funding rates of the day
  that are not NaN; a day whose funding rates are all NaN has a NaN mean, and \<open>dropna\<close>
  removes its row.
\<close>

definition daily_futures_row ::
  "timestamp \<times> (real \<times> real option) \<times> (real \<times> real option) list
     \<Rightarrow> (timestamp \<times> real \<times> real) list"
where
  "daily_futures_row g =
     (case g of (d, x, xs) \<Rightarrow>
        let mark = fst (last (x # xs));
            rates = concat (map (\<lambda>(m, f). case f of None \<Rightarrow> [] | Some r \<Rightarrow> [r]) (x # xs))
        in if rates = [] then [] else [(d, mark, sum_list rates / real (length rates))])"

definition daily_futures_frame :: "raw_futures_frame \<Rightarrow> futures_frame" where
  "daily_futures_frame df = concat (map daily_futures_row (group_days (sort_key fst df)))"

fun resample_spot ::
  "(string \<times> spot_frame) list \<Rightarrow> (string \<times> spot_frame) list \<Rightarrow> (string \<times> spot_frame) list"
where
  "resample_spot daily_spot [] = daily_spot"
| "resample_spot daily_spot ((a, df) # rest) =
     (if df = [] then resample_spot daily_spot rest
      else resample_spot (AList.update a (daily_spot_frame df) daily_spot) rest)"

fun resample_futures ::
  "(string \<times> futures_frame) list \<Rightarrow> (string \<times> raw_futures_frame) list
     \<Rightarrow> (string \<times> futures_frame) list"
where
  "resample_futures daily_futures [] = daily_futures"
| "resample_futures daily_futures ((a, df) # rest) =
     (if df = [] then resample_futures daily_futures rest
      else resample_futures (AList.update a (daily_futures_frame df) daily_futures) rest)"

definition resample_to_daily ::
  "(string \<times> spot_frame) list \<Rightarrow> (string \<times> raw_futures_frame) list
     \<Rightarrow> (string \<times> spot_frame) list \<times> (string \<times> futures_frame) list"
where
  "resample_to_daily spot_data futures_data =
     (resample_spot [] spot_data, resample_futures [] futures_data)"

text \<open>The line that the futures loop logs for one asset, and the asset a line is about.\<close>

definition futures_event :: "string \<times> fetched \<times> fetched \<Rightarrow> log_level \<times> fetch_event" where
  "futures_event item =
     (case item of
        (a, Rows mark_rows, Rows funding_rows) \<Rightarrow>
          if mark_rows = [] then (WARNING, Mark_missing a)
          else (INFO, Futures_fetched a (length mark_rows) (length funding_rows))
      | (a, _, _) \<Rightarrow> (WARNING, Futures_failed a))"

fun futures_event_asset :: "fetch_event \<Rightarrow> string option" where
  "futures_event_asset (Futures_failed a) = Some a"
| "futures_event_asset (Mark_missing a) = Some a"
| "futures_event_asset (Futures_fetched a n m) = Some a"
| "futures_event_asset _ = None"

definition futures_lines_about :: "string \<Rightarrow> fetch_log \<Rightarrow> fetch_log" where
  "futures_lines_about a logged = filter (\<lambda>line. futures_event_asset (snd line) = Some a) logged"

text \<open>
  An example database: two spot rows and two mark-price rows for BTC, twelve and eight
  hours apart, and no funding rate.
\<close>

definition example_db :: database where
  "example_db =
     \<lparr>get_ohlcv_data = (\<lambda>a. if a = ''BTC'' then Rows [(0, 49900), (43200, 50050)] else Rows []),
      get_mark_klines = (\<lambda>a. if a = ''BTC'' then Rows [(28800, 50100), (0, 50000)] else Rows []),
      get_funding_rates = (\<lambda>a. Rows [])\<rparr>"

section \<open>The risk profile (src/analysis/riskprofile.py)\<close>

text \<open>Python's \<open>str\<close> of an integer, and \<open>separator.join(parts)\<close>.\<close>

definition digit :: "nat \<Rightarrow> char" where
  "digit n = ''0123456789'' ! (n mod 10)"

fun str_nat :: "nat \<Rightarrow> string" where
  "str_nat n = (if n < 10 then [digit n] else str_nat (n div 10) @ [digit (n mod 10)])"

declare str_nat.simps [simp del]

definition str_int :: "int \<Rightarrow> string" where
  "str_int i = (if i < 0 then ''-'' @ str_nat (nat (- i)) else str_nat (nat i))"

fun join :: "string \<Rightarrow> string list \<Rightarrow> string" where
  "join separator [] = []"
| "join separator [part] = part"
| "join separator (part # next_part # parts) =
     part @ separator @ join separator (next_part # parts)"

text \<open>The message of the check on the days available, and the messages of the alignment.\<close>

definition days_message :: "int \<Rightarrow> string" where
  "days_message actual_days =
     ''Warning: Only '' @ str_int actual_days
     @ '' days of data available (recommended: 30+). Risk metrics may be unreliable.''"

fun warning_message :: "gap_warning \<Rightarrow> string" where
  "warning_message (Spot_gap a n) =
     a @ '' spot: '' @ str_nat n @ '' missing values at the beginning (no forward-fill source)''"
| "warning_message (Mark_gap a n) = a @ '' futures: '' @ str_nat n @ '' missing mark prices''"
| "warning_message (Funding_gap a n) = a @ '' funding: '' @ str_nat n @ '' missing funding rates''"

text \<open>
  The modules \<open>metrics\<close>, \<open>scenarios\<close> and \<open>config\<close> are not part of these sources. The
  functions of the risk profile that only call into them are parameters of the model, and
  each may fail: the historical series (step 6), the risk metrics (step 8), the scenarios
  (step 10), and the sensitivity range of the settings, in percent.
\<close>

record ('h, 'm, 's) collaborators =
  SENSITIVITY_RANGE :: "real list"
  calculate_historical_portfolio_series :: "position list \<Rightarrow> aligned_table \<Rightarrow> error + 'h"
  calculate_risk_metrics ::
    "'h \<Rightarrow> real \<Rightarrow> int \<Rightarrow> position list \<Rightarrow> aligned_table \<Rightarrow> error + 'm"
  run_all_scenarios :: "position list \<Rightarrow> prices \<Rightarrow> error + 's"

record ('m, 's) risk_profile =
  current_portfolio_value :: real
  data_availability_warning :: "string option"
  sensitivity_analysis :: "sensitivity_row list"
  risk_metrics_data :: 'm
  delta_exposure_value :: real
  scenarios :: 's

text \<open>
  \<open>_extract_current_prices\<close>: the last row of the table, for every position the cell of its
  spot or futures-mark column. Where that cell is NaN the source goes on with NaN; the
  real numbers have no such value, and the model ends the run with \<open>NotANumber\<close>.
\<close>

fun extract_loop :: "prices \<Rightarrow> aligned_table \<Rightarrow> position list \<Rightarrow> error + prices" where
  "extract_loop current_prices aligned_data [] = Inr current_prices"
| "extract_loop current_prices aligned_data (pos # rest) =
     (case asset pos of None \<Rightarrow> Inl (KeyError ''asset'') | Some a \<Rightarrow>
      case position_type pos of None \<Rightarrow> Inl (KeyError ''position_type'') | Some t \<Rightarrow>
      let col_name = (if t = ''spot'' then Spot_column a else Futures_mark_column a)
      in case map_of (columns aligned_data) col_name of
           None \<Rightarrow> Inl (if t = ''spot'' then NoSpotData a else NoFuturesData a)
         | Some cells \<Rightarrow>
             (if cells = [] then Inl IndexError
              else case last cells of
                None \<Rightarrow> Inl (NotANumber a)
              | Some price \<Rightarrow>
                  extract_loop (current_prices(Pair_key a t \<mapsto> price)) aligned_data rest))"

definition extract_current_prices :: "aligned_table \<Rightarrow> position list \<Rightarrow> error + prices" where
  "extract_current_prices aligned_data positions =
     (if timestamps aligned_data = [] then Inl IndexError
      else extract_loop Map.empty aligned_data positions)"

text \<open>\<open>list(set(pos["asset"] for pos in positions))\<close>, in one of the orders a set may have.\<close>

definition portfolio_assets :: "position list \<Rightarrow> string list" where
  "portfolio_assets positions =
     remdups (concat (map (\<lambda>pos. case asset pos of None \<Rightarrow> [] | Some a \<Rightarrow> [a]) positions))"

text \<open>Lines 44 to 48: the warning about the days available.\<close>

definition days_warning :: "int \<Rightarrow> string option" where
  "days_warning actual_days =
     (if actual_days < 30 then Some (days_message actual_days) else None)"

text \<open>Lines 58 to 63: the warnings of the alignment are joined and appended.\<close>

definition add_alignment_warnings :: "string option \<Rightarrow> gap_warning list \<Rightarrow> string option" where
  "add_alignment_warnings data_warning alignment_warnings =
     (if alignment_warnings \<noteq> [] then
        (let warning_msg = join ''; '' (map warning_message alignment_warnings)
         in case data_warning of
              Some w \<Rightarrow> Some (w @ '' | '' @ warning_msg)
            | None \<Rightarrow> Some warning_msg)
      else data_warning)"

text \<open>Lines 67 to 120: from the current prices to the response.\<close>

definition complete_profile ::
  "('h, 'm, 's) collaborators \<Rightarrow> position list \<Rightarrow> aligned_table \<Rightarrow> int \<Rightarrow> string option
     \<Rightarrow> error + ('m, 's) risk_profile"
where
  "complete_profile env positions aligned_data actual_days data_warning =
     (case extract_current_prices aligned_data positions of Inl e \<Rightarrow> Inl e | Inr current_prices \<Rightarrow>
      case calculate_portfolio_value positions current_prices of Inl e \<Rightarrow> Inl e | Inr current_value \<Rightarrow>
      case calculate_historical_portfolio_series env positions aligned_data of
        Inl e \<Rightarrow> Inl e | Inr series \<Rightarrow>
      case calculate_sensitivity_table positions current_prices
             (map (\<lambda>x. x / 100) (SENSITIVITY_RANGE env)) of
        Inl e \<Rightarrow> Inl e | Inr sensitivity_table \<Rightarrow>
      case calculate_risk_metrics env series current_value actual_days positions aligned_data of
        Inl e \<Rightarrow> Inl e | Inr metrics \<Rightarrow>
      case calculate_delta_exposure positions of Inl e \<Rightarrow> Inl e | Inr delta \<Rightarrow>
      case run_all_scenarios env positions current_prices of Inl e \<Rightarrow> Inl e | Inr scenario_results \<Rightarrow>
      Inr \<lparr>current_portfolio_value = current_value,
           data_availability_warning = data_warning,
           sensitivity_analysis = sensitivity_table,
           risk_metrics_data = metrics,
           delta_exposure_value = delta,
           scenarios = scenario_results\<rparr>)"

definition calculate_risk_profile ::
  "('h, 'm, 's) collaborators \<Rightarrow> database \<Rightarrow> position list \<Rightarrow> int
     \<Rightarrow> error + ('m, 's) risk_profile"
where
  "calculate_risk_profile env db positions lookback_days =
     (case validate_positions positions of
        Inl e \<Rightarrow> Inl e
      | Inr checked \<Rightarrow>
          let assets = portfolio_assets positions;
              (spot_data, futures_data, actual_days, logged) =
                fetch_portfolio_data db assets lookback_days;
              data_warning = days_warning actual_days;
              (daily_spot, daily_futures) = resample_to_daily spot_data futures_data
          in case align_time_series daily_spot daily_futures of
               Inl e \<Rightarrow> Inl e
             | Inr (aligned_data, alignment_warnings) \<Rightarrow>
                 complete_profile env positions aligned_data actual_days
                   (add_alignment_warnings data_warning alignment_warnings))"

text \<open>
  What the request gives to the alignment: the days available and the daily frames. This
  is the part of \<open>calculate_risk_profile\<close> before the alignment, on its own.
\<close>

definition prepared_data ::
  "database \<Rightarrow> position list \<Rightarrow> int
     \<Rightarrow> int \<times> (string \<times> spot_frame) list \<times> (string \<times> futures_frame) list"
where
  "prepared_data db positions lookback_days =
     (let (spot_data, futures_data, actual_days, logged) =
            fetch_portfolio_data db (portfolio_assets positions) lookback_days;
          (daily_spot, daily_futures) = resample_to_daily spot_data futures_data
      in (actual_days, daily_spot, daily_futures))"

text \<open>
  The warning in the words of the specification: the concatenation of the warnings that
  contribute, and nothing when none does.
\<close>

definition contributing_warnings :: "int \<Rightarrow> gap_warning list \<Rightarrow> string list" where
  "contributing_warnings actual_days alignment_warnings =
     (if actual_days < 30 then [days_message actual_days] else [])
     @ (if alignment_warnings = [] then []
        else [join ''; '' (map warning_message alignment_warnings)])"

definition availability_warning :: "int \<Rightarrow> gap_warning list \<Rightarrow> string option" where
  "availability_warning actual_days alignment_warnings =
     (case contributing_warnings actual_days alignment_warnings of
        [] \<Rightarrow> None
      | parts \<Rightarrow> Some (join '' | '' parts))"

text \<open>
  Examples. Collaborators that return at once; a position in BTC spot for the example
  database; and a database with thirty days of spot rows for one asset and ten for another.
\<close>

definition example_env :: "(unit, unit, unit) collaborators" where
  "example_env =
     \<lparr>SENSITIVITY_RANGE = [-10, 0, 10],
      calculate_historical_portfolio_series = (\<lambda>positions aligned_data. Inr ()),
      calculate_risk_metrics = (\<lambda>series current_value actual_days positions aligned_data. Inr ()),
      run_all_scenarios = (\<lambda>positions current_prices. Inr ())\<rparr>"

definition example_position :: position where
  "example_position =
     \<lparr>asset = Some ''BTC'', quantity = Some 1, position_type = Some ''spot'',
      entry_price = Some 45000, leverage = Some 1\<rparr>"

definition two_spans_db :: database where
  "two_spans_db =
     \<lparr>get_ohlcv_data =
        (\<lambda>a. if a = ''A'' then Rows [(0, 100), (2592000, 110)]
             else if a = ''B'' then Rows [(0, 50), (864000, 55)]
             else Rows []),
      get_mark_klines = (\<lambda>a. Rows []),
      get_funding_rates = (\<lambda>a. Rows [])\<rparr>"

definition two_spans_positions :: "position list" where
  "two_spans_positions =
     [\<lparr>asset = Some ''A'', quantity = Some 1, position_type = Some ''spot'',
       entry_price = Some 100, leverage = Some 1\<rparr>,
      \<lparr>asset = Some ''B'', quantity = Some 2, position_type = Some ''spot'',
       entry_price = Some 50, leverage = Some 1\<rparr>]"

definition example_table :: aligned_table where
  "example_table =
     \<lparr>timestamps = [0],
      columns = [(Spot_column ''BTC'', [Some 50050]),
                 (Futures_mark_column ''BTC'', [Some 50100]),
                 (Funding_column ''BTC'', [Some 0])]\<rparr>"

definition example_response :: "(unit, unit) risk_profile" where
  "example_response =
     \<lparr>current_portfolio_value = 50050,
      data_availability_warning =
        Some ''Warning: Only 0 days of data available (recommended: 30+). Risk metrics may be unreliable.'',
      sensitivity_analysis =
        [\<lparr>price_change_pct = - 10, portfolio_value = 45045, pnl = - 5005, return_pct = - 10\<rparr>,
         \<lparr>price_change_pct = 0, portfolio_value = 50050, pnl = 0, return_pct = 0\<rparr>,
         \<lparr>price_change_pct = 10, portfolio_value = 55055, pnl = 5005, return_pct = 10\<rparr>],
      risk_metrics_data = (), delta_exposure_value = 1, scenarios = ()\<rparr>"


section \<open>Properties\<close>

subsection \<open>Valuation of one position\<close>

lemma value_by_type_long:
  "lev \<noteq> 0 \<Longrightarrow> value_by_type ''futures_long'' q e lev cp = Inr (q * e / lev + (cp - e) * q)"
  by (simp add: value_by_type_def calculate_futures_long_value_def)

lemma value_by_type_short:
  "lev \<noteq> 0 \<Longrightarrow> value_by_type ''futures_short'' q e lev cp = Inr (q * e / lev + (e - cp) * q)"
  by (simp add: value_by_type_def calculate_futures_short_value_def)

lemma value_by_type_spot:
  "value_by_type ''spot'' q e lev cp = Inr (q * cp)"
  by (simp add: value_by_type_def calculate_spot_value_def)

lemma calculate_position_value_resolved:
  assumes "asset pos = Some a" "quantity pos = Some q" "position_type pos = Some t"
    and "entry_price pos = Some e" "lookup_current_price prices a t = Some cp"
  shows "calculate_position_value pos prices = value_by_type t q e (position_leverage pos) cp"
  using assms by (simp add: calculate_position_value_def)

lemma delta_exposure_loop_one_leverage:
  "delta_exposure_loop d (before @ pos\<lparr>leverage := lev\<rparr> # after)
     = delta_exposure_loop d (before @ pos # after)"
  by (induction before arbitrary: d) (auto split: option.splits)

text \<open>
  Claim C1. A position that has its four required fields, whose price resolves to \<open>cp\<close> and
  whose leverage \<open>l\<close> is not zero, is valued as follows. A futures-long position is worth
  margin plus pnl, with margin \<open>q * e / l\<close> and pnl \<open>(cp - e) * q\<close>; a futures-short position
  the same with pnl \<open>(e - cp) * q\<close>. With the leverage doubled the margin term is halved and
  the pnl term is the same, and the delta exposure of any portfolio holding the position is
  unchanged. A spot position is worth \<open>q * cp\<close>.
\<close>

theorem futures_value_is_margin_plus_pnl:
  assumes "asset pos = Some a" and "quantity pos = Some q" and "position_type pos = Some t"
    and "entry_price pos = Some e" and "lookup_current_price prices a t = Some cp"
    and "position_leverage pos = l" and "l \<noteq> 0"
  shows "(t = ''futures_long'' \<longrightarrow>
            calculate_position_value pos prices = Inr (q * e / l + (cp - e) * q)
          \<and> calculate_position_value (pos\<lparr>leverage := Some (2 * l)\<rparr>) prices
              = Inr ((q * e / l) / 2 + (cp - e) * q))
       \<and> (t = ''futures_short'' \<longrightarrow>
            calculate_position_value pos prices = Inr (q * e / l + (e - cp) * q)
          \<and> calculate_position_value (pos\<lparr>leverage := Some (2 * l)\<rparr>) prices
              = Inr ((q * e / l) / 2 + (e - cp) * q))
       \<and> (t = ''spot'' \<longrightarrow> calculate_position_value pos prices = Inr (q * cp))
       \<and> calculate_delta_exposure (before @ pos\<lparr>leverage := Some (2 * l)\<rparr> # after)
           = calculate_delta_exposure (before @ pos # after)"
proof -
  let ?pos2 = "pos\<lparr>leverage := Some (2 * l)\<rparr>"
  have v: "calculate_position_value pos prices = value_by_type t q e l cp"
    using assms calculate_position_value_resolved by metis
  have "position_leverage ?pos2 = 2 * l"
    by (simp add: position_leverage_def)
  then have v2: "calculate_position_value ?pos2 prices = value_by_type t q e (2 * l) cp"
    using assms calculate_position_value_resolved [of ?pos2 a q t e prices cp] by simp
  have l2: "2 * l \<noteq> 0" using \<open>l \<noteq> 0\<close> by simp
  show ?thesis
    unfolding v v2 calculate_delta_exposure_def
    using \<open>l \<noteq> 0\<close> value_by_type_long [OF l2] value_by_type_short [OF l2]
    by (simp add: value_by_type_long value_by_type_short value_by_type_spot
        delta_exposure_loop_one_leverage)
qed

theorem futures_value_is_margin_plus_pnl_witness:
  "calculate_position_value
     \<lparr>asset = Some ''ETH'', quantity = Some 10, position_type = Some ''futures_long'',
      entry_price = Some 2500, leverage = Some 2\<rparr>
     [Pair_key ''ETH'' ''futures_long'' \<mapsto> 2700] = Inr 14500
   \<and> calculate_position_value
     \<lparr>asset = Some ''ETH'', quantity = Some 10, position_type = Some ''futures_long'',
      entry_price = Some 2500, leverage = Some 4\<rparr>
     [Pair_key ''ETH'' ''futures_long'' \<mapsto> 2700] = Inr 8250
   \<and> calculate_position_value
     \<lparr>asset = Some ''SOL'', quantity = Some 100, position_type = Some ''futures_short'',
      entry_price = Some 100, leverage = Some 2\<rparr>
     [Asset_key ''SOL'' \<mapsto> 90] = Inr 6000
   \<and> calculate_position_value
     \<lparr>asset = Some ''BTC'', quantity = Some 1, position_type = Some ''spot'',
      entry_price = Some 45000, leverage = None\<rparr>
     [Pair_key ''BTC'' ''spot'' \<mapsto> 50000] = Inr 50000"
  using futures_value_is_margin_plus_pnl
    [of "\<lparr>asset = Some ''ETH'', quantity = Some 10, position_type = Some ''futures_long'',
      entry_price = Some 2500, leverage = Some 2\<rparr>" "''ETH''" 10 "''futures_long''" 2500
      "[Pair_key ''ETH'' ''futures_long'' \<mapsto> 2700]" 2700 2 "[]" "[]"]
    futures_value_is_margin_plus_pnl
    [of "\<lparr>asset = Some ''SOL'', quantity = Some 100, position_type = Some ''futures_short'',
      entry_price = Some 100, leverage = Some 2\<rparr>" "''SOL''" 100 "''futures_short''" 100
      "[Asset_key ''SOL'' \<mapsto> 90]" 90 2 "[]" "[]"]
    futures_value_is_margin_plus_pnl
    [of "\<lparr>asset = Some ''BTC'', quantity = Some 1, position_type = Some ''spot'',
      entry_price = Some 45000, leverage = None\<rparr>" "''BTC''" 1 "''spot''" 45000
      "[Pair_key ''BTC'' ''spot'' \<mapsto> 50000]" 50000 1 "[]" "[]"]
  by (simp add: lookup_current_price_def position_leverage_def)

subsection \<open>Delta exposure\<close>

lemma delta_exposure_loop_sum:
  "list_all has_quantity_and_type ps \<Longrightarrow>
     delta_exposure_loop d ps = Inr (d + sum_list (map signed_quantity ps))"
  by (induction ps arbitrary: d)
     (auto simp: has_quantity_and_type_def signed_quantity_def split: option.splits)

lemma delta_exposure_loop_leverage:
  "delta_exposure_loop d (map (\<lambda>p. p\<lparr>leverage := f p\<rparr>) ps) = delta_exposure_loop d ps"
  by (induction ps arbitrary: d) (auto split: option.splits)

text \<open>
  Claim C2. For a list of positions that each have a quantity and a position type, the delta
  exposure is the sum of the signed quantities. Replacing the leverage of every position by
  anything leaves the delta exposure what it was. A spot position of 1 of an asset with a
  futures-short position of 1 of the same asset has delta exposure 0, whatever the entry
  prices and the leverages.
\<close>

theorem delta_exposure_is_signed_sum:
  "(list_all has_quantity_and_type ps \<longrightarrow>
      calculate_delta_exposure ps = Inr (sum_list (map signed_quantity ps)))
   \<and> calculate_delta_exposure (map (\<lambda>p. p\<lparr>leverage := f p\<rparr>) ps) = calculate_delta_exposure ps
   \<and> calculate_delta_exposure
        [\<lparr>asset = Some a, quantity = Some 1, position_type = Some ''spot'',
          entry_price = e1, leverage = l1\<rparr>,
         \<lparr>asset = Some a, quantity = Some 1, position_type = Some ''futures_short'',
          entry_price = e2, leverage = l2\<rparr>] = Inr 0"
  by (simp add: calculate_delta_exposure_def delta_exposure_loop_sum delta_exposure_loop_leverage)

theorem delta_exposure_is_signed_sum_witness:
  "calculate_delta_exposure
     [\<lparr>asset = Some ''BTC'', quantity = Some 1, position_type = Some ''spot'',
       entry_price = Some 45000, leverage = None\<rparr>,
      \<lparr>asset = Some ''ETH'', quantity = Some 10, position_type = Some ''futures_long'',
       entry_price = Some 2500, leverage = Some 2\<rparr>,
      \<lparr>asset = Some ''SOL'', quantity = Some 4, position_type = Some ''futures_short'',
       entry_price = Some 100, leverage = Some 3\<rparr>] = Inr 7"
  using delta_exposure_is_signed_sum
    [of "[\<lparr>asset = Some ''BTC'', quantity = Some 1, position_type = Some ''spot'',
       entry_price = Some 45000, leverage = None\<rparr>,
      \<lparr>asset = Some ''ETH'', quantity = Some 10, position_type = Some ''futures_long'',
       entry_price = Some 2500, leverage = Some 2\<rparr>,
      \<lparr>asset = Some ''SOL'', quantity = Some 4, position_type = Some ''futures_short'',
       entry_price = Some 100, leverage = Some 3\<rparr>]"]
  by (simp add: has_quantity_and_type_def signed_quantity_def)

subsection \<open>Price lookup\<close>

text \<open>
  Claim C5. For a position that has its four required fields: when the snapshot has the
  composite key, its price is the one used, whatever the bare asset key holds; when it has
  only the bare asset key, that price is used; the valuation fails with \<open>MissingPrice\<close> if
  and only if the snapshot has neither key, and then it returns no value.
\<close>

theorem price_lookup_composite_then_asset:
  assumes "asset pos = Some a" and "quantity pos = Some q" and "position_type pos = Some t"
    and "entry_price pos = Some e"
  shows "(current_prices (Pair_key a t) = Some p \<longrightarrow>
            calculate_position_value pos current_prices
              = value_by_type t q e (position_leverage pos) p)
       \<and> (current_prices (Pair_key a t) = None \<and> current_prices (Asset_key a) = Some p \<longrightarrow>
            calculate_position_value pos current_prices
              = value_by_type t q e (position_leverage pos) p)
       \<and> ((\<exists>a' t'. calculate_position_value pos current_prices = Inl (MissingPrice a' t'))
            \<longleftrightarrow> current_prices (Pair_key a t) = None \<and> current_prices (Asset_key a) = None)
       \<and> (current_prices (Pair_key a t) = None \<and> current_prices (Asset_key a) = None \<longrightarrow>
            calculate_position_value pos current_prices = Inl (MissingPrice a t)
          \<and> (\<forall>v. calculate_position_value pos current_prices \<noteq> Inr v))"
  using assms
  by (auto simp: calculate_position_value_def lookup_current_price_def value_by_type_def
      calculate_futures_long_value_def calculate_futures_short_value_def Let_def
      split: option.splits if_splits)

theorem price_lookup_composite_then_asset_witness:
  "calculate_position_value
     \<lparr>asset = Some ''BTC'', quantity = Some 2, position_type = Some ''spot'',
      entry_price = Some 45000, leverage = None\<rparr>
     [Pair_key ''BTC'' ''spot'' \<mapsto> 50000, Asset_key ''BTC'' \<mapsto> 49000] = Inr 100000
   \<and> calculate_position_value
     \<lparr>asset = Some ''BTC'', quantity = Some 2, position_type = Some ''spot'',
      entry_price = Some 45000, leverage = None\<rparr>
     [Pair_key ''BTC'' ''futures_long'' \<mapsto> 50000, Asset_key ''BTC'' \<mapsto> 49000] = Inr 98000
   \<and> calculate_position_value
     \<lparr>asset = Some ''BTC'', quantity = Some 2, position_type = Some ''spot'',
      entry_price = Some 45000, leverage = None\<rparr>
     [Pair_key ''BTC'' ''futures_long'' \<mapsto> 50000, Asset_key ''ETH'' \<mapsto> 2700]
       = Inl (MissingPrice ''BTC'' ''spot'')"
  using price_lookup_composite_then_asset
    [of "\<lparr>asset = Some ''BTC'', quantity = Some 2, position_type = Some ''spot'',
      entry_price = Some 45000, leverage = None\<rparr>" "''BTC''" 2 "''spot''" 45000
      "[Pair_key ''BTC'' ''spot'' \<mapsto> 50000, Asset_key ''BTC'' \<mapsto> 49000]" 50000]
    price_lookup_composite_then_asset
    [of "\<lparr>asset = Some ''BTC'', quantity = Some 2, position_type = Some ''spot'',
      entry_price = Some 45000, leverage = None\<rparr>" "''BTC''" 2 "''spot''" 45000
      "[Pair_key ''BTC'' ''futures_long'' \<mapsto> 50000, Asset_key ''BTC'' \<mapsto> 49000]" 49000]
    price_lookup_composite_then_asset
    [of "\<lparr>asset = Some ''BTC'', quantity = Some 2, position_type = Some ''spot'',
      entry_price = Some 45000, leverage = None\<rparr>" "''BTC''" 2 "''spot''" 45000
      "[Pair_key ''BTC'' ''futures_long'' \<mapsto> 50000, Asset_key ''ETH'' \<mapsto> 2700]" 0]
  by (simp add: value_by_type_spot)

subsection \<open>Sensitivity table\<close>

lemma apply_price_shock_zero: "apply_price_shock base_prices 0 = base_prices"
  by (simp add: apply_price_shock_def option.map_ident)

lemma lookup_after_shock:
  "lookup_current_price (apply_price_shock base_prices s) a t
     = map_option (\<lambda>price. price * (1 + s)) (lookup_current_price base_prices a t)"
  by (simp add: lookup_current_price_def apply_price_shock_def split: option.splits)

lemma value_by_type_succeeds:
  "value_by_type t q e lev cp = Inr v \<Longrightarrow> \<exists>v'. value_by_type t q e lev cp' = Inr v'"
  by (auto simp: value_by_type_def calculate_futures_long_value_def
      calculate_futures_short_value_def Let_def split: if_splits)

lemma position_value_after_shock:
  assumes "calculate_position_value pos base_prices = Inr v"
  shows "\<exists>v'. calculate_position_value pos (apply_price_shock base_prices s) = Inr v'"
  using assms value_by_type_succeeds
  by (auto simp: calculate_position_value_def lookup_after_shock split: option.splits)

lemma portfolio_value_loop_after_shock:
  "portfolio_value_loop total_value ps base_prices = Inr v \<Longrightarrow>
     \<exists>v'. portfolio_value_loop total_value' ps (apply_price_shock base_prices s) = Inr v'"
proof (induction ps arbitrary: total_value total_value')
  case Nil
  then show ?case by simp
next
  case (Cons pos ps)
  from Cons.prems obtain w where w: "calculate_position_value pos base_prices = Inr w"
    by (auto split: sum.splits)
  with Cons.prems have rest: "portfolio_value_loop (total_value + w) ps base_prices = Inr v"
    by simp
  from position_value_after_shock [OF w] obtain w'
    where w': "calculate_position_value pos (apply_price_shock base_prices s) = Inr w'"
    by blast
  from Cons.IH [OF rest, of "total_value' + w'"] show ?case
    by (simp add: w')
qed

lemma portfolio_value_after_shock:
  "calculate_portfolio_value ps base_prices = Inr v \<Longrightarrow>
     \<exists>v'. calculate_portfolio_value ps (apply_price_shock base_prices s) = Inr v'"
  unfolding calculate_portfolio_value_def by (rule portfolio_value_loop_after_shock)

lemma sensitivity_loop_rows:
  assumes "calculate_portfolio_value ps base_prices = Inr v"
  shows "\<exists>new. sensitivity_loop ps base_prices base_value table shocks = Inr (table @ new)
           \<and> list_all2 (row_of_shock ps base_prices base_value) shocks new"
proof (induction shocks arbitrary: table)
  case Nil
  then show ?case by simp
next
  case (Cons s shocks)
  from portfolio_value_after_shock [OF assms, of s] obtain sv
    where sv: "calculate_portfolio_value ps (apply_price_shock base_prices s) = Inr sv"
    by blast
  define r where "r = \<lparr>price_change_pct = s * 100, portfolio_value = sv, pnl = sv - base_value,
      return_pct = (if base_value \<noteq> 0 then (sv - base_value) / base_value else 0) * 100\<rparr>"
  from Cons.IH [of "table @ [r]"] obtain new
    where new: "sensitivity_loop ps base_prices base_value (table @ [r]) shocks
                  = Inr ((table @ [r]) @ new)"
      and all: "list_all2 (row_of_shock ps base_prices base_value) shocks new"
    by blast
  have "sensitivity_loop ps base_prices base_value table (s # shocks) = Inr (table @ r # new)"
    using new by (simp add: sv r_def Let_def)
  moreover have "row_of_shock ps base_prices base_value s r"
    by (simp add: row_of_shock_def r_def sv)
  ultimately show ?case using all by blast
qed

text \<open>
  Claim C3. When the portfolio has a value at the base prices, the sensitivity table is
  returned for every shock range; its rows carry the shocks of the range, times 100, in the
  order of the range; every row whose price change is 0 has the base value as its portfolio
  value and a pnl of 0; and when the range contains 0 there is such a row.
\<close>

theorem sensitivity_zero_row_is_base_value:
  assumes "calculate_portfolio_value positions base_prices = Inr base_value"
  shows "\<exists>rows. calculate_sensitivity_table positions base_prices shock_range = Inr rows
           \<and> map price_change_pct rows = map (\<lambda>s. s * 100) shock_range
           \<and> (\<forall>r \<in> set rows. price_change_pct r = 0 \<longrightarrow>
                  portfolio_value r = base_value \<and> pnl r = 0)
           \<and> (0 \<in> set shock_range \<longrightarrow> (\<exists>r \<in> set rows. price_change_pct r = 0))"
proof -
  from sensitivity_loop_rows [OF assms, of base_value "[]" shock_range] obtain rows
    where rows: "sensitivity_loop positions base_prices base_value [] shock_range = Inr rows"
      and all: "list_all2 (row_of_shock positions base_prices base_value) shock_range rows"
    by auto
  have tab: "calculate_sensitivity_table positions base_prices shock_range = Inr rows"
    by (simp add: calculate_sensitivity_table_def assms rows)
  have len: "length rows = length shock_range"
    using all by (simp add: list_all2_lengthD)
  have nth: "row_of_shock positions base_prices base_value (shock_range ! i) (rows ! i)"
    if "i < length shock_range" for i
    using all that by (simp add: list_all2_nthD)
  have order: "map price_change_pct rows = map (\<lambda>s. s * 100) shock_range"
    using len nth by (auto simp: list_eq_iff_nth_eq row_of_shock_def)
  have zero: "portfolio_value r = base_value \<and> pnl r = 0"
    if r: "r \<in> set rows" and z: "price_change_pct r = 0" for r
  proof -
    from r obtain i where i: "i < length rows" and ri: "rows ! i = r"
      by (auto simp: in_set_conv_nth)
    from nth [of i] i len ri
    have row: "row_of_shock positions base_prices base_value (shock_range ! i) r"
      by simp
    with z have "shock_range ! i = 0"
      by (simp add: row_of_shock_def)
    with row assms show ?thesis
      by (simp add: row_of_shock_def apply_price_shock_zero)
  qed
  have ex: "\<exists>r \<in> set rows. price_change_pct r = 0" if "0 \<in> set shock_range"
  proof -
    from that have "0 \<in> set (map (\<lambda>s. s * 100) shock_range)" by force
    with order have "0 \<in> set (map price_change_pct rows)" by simp
    then show ?thesis by auto
  qed
  from tab order zero ex show ?thesis by blast
qed

theorem sensitivity_zero_row_is_base_value_witness:
  "calculate_portfolio_value
       [\<lparr>asset = Some ''BTC'', quantity = Some 1, position_type = Some ''spot'',
         entry_price = Some 45000, leverage = None\<rparr>]
       [Pair_key ''BTC'' ''spot'' \<mapsto> 50000] = Inr 50000
   \<and> calculate_sensitivity_table
       [\<lparr>asset = Some ''BTC'', quantity = Some 1, position_type = Some ''spot'',
         entry_price = Some 45000, leverage = None\<rparr>]
       [Pair_key ''BTC'' ''spot'' \<mapsto> 50000] [-(1/10), 0, 1/10]
       = Inr [\<lparr>price_change_pct = - 10, portfolio_value = 45000, pnl = - 5000, return_pct = - 10\<rparr>,
              \<lparr>price_change_pct = 0, portfolio_value = 50000, pnl = 0, return_pct = 0\<rparr>,
              \<lparr>price_change_pct = 10, portfolio_value = 55000, pnl = 5000, return_pct = 10\<rparr>]"
proof -
  have base: "calculate_portfolio_value
       [\<lparr>asset = Some ''BTC'', quantity = Some 1, position_type = Some ''spot'',
         entry_price = Some 45000, leverage = None\<rparr>]
       [Pair_key ''BTC'' ''spot'' \<mapsto> 50000] = Inr 50000"
    by (simp add: calculate_portfolio_value_def calculate_position_value_def
        lookup_current_price_def value_by_type_def calculate_spot_value_def)
  from sensitivity_zero_row_is_base_value [OF base, of "[-(1/10), 0, 1/10]"]
  obtain rows where "calculate_sensitivity_table
       [\<lparr>asset = Some ''BTC'', quantity = Some 1, position_type = Some ''spot'',
         entry_price = Some 45000, leverage = None\<rparr>]
       [Pair_key ''BTC'' ''spot'' \<mapsto> 50000] [-(1/10), 0, 1/10] = Inr rows"
    by blast
  then show ?thesis
    using base
    by (simp add: calculate_sensitivity_table_def calculate_portfolio_value_def
        calculate_position_value_def lookup_current_price_def value_by_type_def
        calculate_spot_value_def apply_price_shock_def)
qed

subsection \<open>Validation\<close>

lemma validate_loop_ok:
  "validate_loop i ps = Inr () \<longleftrightarrow> list_all position_ok ps"
  by (induction ps arbitrary: i)
     (auto simp: position_ok_def lacks_required_field_def type_outside_kinds_def
        quantity_not_positive_def entry_price_not_positive_def leverage_outside_range_def
        Let_def split: option.splits)

lemma validate_loop_error:
  "validate_loop i ps = Inl e \<Longrightarrow> is_InvalidPortfolio e"
  by (induction ps arbitrary: i) (auto simp: Let_def split: option.splits if_splits)

lemma validate_positions_error:
  "validate_positions ps = Inl e \<Longrightarrow> is_InvalidPortfolio e"
  by (auto simp: validate_positions_def validate_loop_error split: if_splits)

lemma validate_positions_ok:
  "validate_positions ps = Inr () \<longleftrightarrow> \<not> invalid_portfolio ps"
  by (auto simp: validate_positions_def validate_loop_ok invalid_portfolio_def position_ok_def
      list_all_iff list_ex_iff)

text \<open>
  Claim C4. Validation fails, and then with a failure of the kind \<open>InvalidPortfolio\<close>, if
  and only if the list of positions is empty, or has more than 20 entries, or holds a
  position that lacks one of the four required fields, or whose type is none of the three
  kinds, or whose quantity or entry price is not positive, or whose leverage is not in the
  interval from 0 (excluded) to 125 (included). For every other list validation passes. A
  failure of the validation is the failure of the whole risk profile.
\<close>

theorem validation_fails_exactly_when_invalid:
  "((\<exists>e. validate_positions positions = Inl e \<and> is_InvalidPortfolio e)
      \<longleftrightarrow> invalid_portfolio positions)
   \<and> (\<not> invalid_portfolio positions \<longrightarrow> validate_positions positions = Inr ())
   \<and> (validate_positions positions = Inl e \<longrightarrow>
        is_InvalidPortfolio e
      \<and> calculate_risk_profile env db positions lookback_days = Inl e)"
proof -
  have "validate_positions positions = Inr () \<or> (\<exists>e. validate_positions positions = Inl e)"
    by (cases "validate_positions positions") auto
  moreover have "calculate_risk_profile env db positions lookback_days = Inl e"
    if "validate_positions positions = Inl e"
    by (simp add: calculate_risk_profile_def that)
  ultimately show ?thesis
    using validate_positions_ok [of positions] validate_positions_error [of positions]
    by auto
qed

theorem validation_fails_exactly_when_invalid_witness:
  "validate_positions
     [\<lparr>asset = Some ''BTC'', quantity = Some 1, position_type = Some ''spot'',
       entry_price = Some 45000, leverage = None\<rparr>,
      \<lparr>asset = Some ''ETH'', quantity = Some 10, position_type = Some ''futures_long'',
       entry_price = Some 2500, leverage = Some 2\<rparr>] = Inr ()
   \<and> validate_positions
        [\<lparr>asset = Some ''ETH'', quantity = Some 10, position_type = Some ''futures_long'',
          entry_price = Some 2500, leverage = Some 126\<rparr>] = Inl (InvalidLeverage 0 126)
   \<and> invalid_portfolio
        [\<lparr>asset = Some ''ETH'', quantity = Some 10, position_type = Some ''futures_long'',
          entry_price = Some 2500, leverage = Some 126\<rparr>]
   \<and> is_InvalidPortfolio (InvalidLeverage 0 126)"
  using validation_fails_exactly_when_invalid
    [of "[\<lparr>asset = Some ''BTC'', quantity = Some 1, position_type = Some ''spot'',
       entry_price = Some 45000, leverage = None\<rparr>,
      \<lparr>asset = Some ''ETH'', quantity = Some 10, position_type = Some ''futures_long'',
       entry_price = Some 2500, leverage = Some 2\<rparr>]"]
    validation_fails_exactly_when_invalid
    [of "[\<lparr>asset = Some ''ETH'', quantity = Some 10, position_type = Some ''futures_long'',
          entry_price = Some 2500, leverage = Some 126\<rparr>]" "InvalidLeverage 0 126"]
  by (simp add: invalid_portfolio_def lacks_required_field_def type_outside_kinds_def
      quantity_not_positive_def entry_price_not_positive_def leverage_outside_range_def
      position_leverage_def validate_positions_def)

subsection \<open>Health score of the alert dashboard\<close>

lemma py_round1_bounds:
  assumes "0 \<le> x" and "x \<le> 25"
  shows "0 \<le> py_round1 x \<and> py_round1 x \<le> 25"
proof -
  define y where "y = x * 10"
  define f where "f = \<lfloor>y\<rfloor>"
  define n where "n = (if y - of_int f < 1/2 then f else if y - of_int f > 1/2 then f + 1
                 else if even f then f else f + 1)"
  have r: "py_round1 x = of_int n / 10"
    by (simp add: py_round1_def y_def f_def n_def Let_def)
  have y: "0 \<le> y" "y \<le> 250" using assms by (simp_all add: y_def)
  have f0: "0 \<le> f" using y by (simp add: f_def)
  have f250: "f \<le> 250" using y unfolding f_def by (simp add: floor_le_iff)
  have "n \<le> 250"
  proof (cases "f = 250")
    case True
    then have "of_int f \<le> y" "y \<le> of_int f" using y f_def by linarith+
    then have "y - of_int f = 0" by simp
    then show ?thesis using True by (simp add: n_def)
  next
    case False
    with f250 have "f + 1 \<le> 250" by simp
    then show ?thesis by (simp add: n_def)
  qed
  moreover have "0 \<le> n" using f0 by (simp add: n_def)
  ultimately show ?thesis by (simp add: r)
qed

lemma py_round1_neutral: "py_round1 (25 / 2) = 25 / 2"
  by (simp add: py_round1_def Let_def)

lemma delta_block_bounds: "0 \<le> fst (delta_block dn) \<and> fst (delta_block dn) \<le> 25"
  by (auto simp: delta_block_def Let_def divide_simps)

lemma volatility_block_bounds: "0 \<le> fst (volatility_block v) \<and> fst (volatility_block v) \<le> 25"
  by (auto simp: volatility_block_def Let_def divide_simps)

lemma leverage_block_bounds: "0 \<le> fst (leverage_block m) \<and> fst (leverage_block m) \<le> 25"
  by (auto simp: leverage_block_def Let_def divide_simps)

lemma sharpe_block_bounds: "0 \<le> fst (sharpe_block dn s) \<and> fst (sharpe_block dn s) \<le> 25"
  by (auto simp: sharpe_block_def Let_def divide_simps)

lemma sharpe_block_neutral: "dn < 0.05 \<Longrightarrow> sharpe_block dn s = (25 / 2, ''fair'')"
  by (simp add: sharpe_block_def)

lemma rounded_component_bounds:
  "0 \<le> fst b \<and> fst b \<le> 25 \<Longrightarrow>
     0 \<le> score (rounded_component b) \<and> score (rounded_component b) \<le> 25"
  by (simp add: rounded_component_def py_round1_bounds)

lemma dashboard_health:
  assumes "calculate_alert_dashboard rm cv ps prices de = Inr d"
  shows "health_components d = calculate_health_components rm cv ps de"
    and "health_score d = sum_of_scores (calculate_health_components rm cv ps de)"
  using assms
  by (auto simp: calculate_alert_dashboard_def Let_def split: sum.splits)

lemma test_dashboard_value:
  "calculate_alert_dashboard test_risk_metrics 100000 test_positions test_prices 200
     = Inr test_dashboard"
  by (simp add: calculate_alert_dashboard_def Let_def position_leverage_def
      calculate_health_components_def normalized_delta_def delta_block_def
      volatility_block_def sharpe_block_def leverage_block_def max_leverage_def
      rounded_component_def py_round1_def sum_of_scores_def overall_liquidation_risk_def
      interpolated_status_def test_risk_metrics_def test_positions_def test_prices_def
      test_dashboard_def)

text \<open>
  Claim C8. Whenever the alert dashboard is returned, each of its four component scores
  (delta neutrality, volatility, Sharpe, leverage) lies between 0 and 25, the health score
  is their sum and lies between 0 and 100, and when the normalized delta is below 0.05 the
  Sharpe component is 12.5, whatever the Sharpe ratio.
\<close>

theorem health_scores_within_bounds:
  assumes "calculate_alert_dashboard rm current_value positions current_prices delta_exposure
             = Inr d"
  shows "(0 \<le> score (hc_delta_neutral (health_components d))
            \<and> score (hc_delta_neutral (health_components d)) \<le> 25)
       \<and> (0 \<le> score (hc_volatility (health_components d))
            \<and> score (hc_volatility (health_components d)) \<le> 25)
       \<and> (0 \<le> score (hc_sharpe_ratio (health_components d))
            \<and> score (hc_sharpe_ratio (health_components d)) \<le> 25)
       \<and> (0 \<le> score (hc_leverage (health_components d))
            \<and> score (hc_leverage (health_components d)) \<le> 25)
       \<and> health_score d
           = score (hc_delta_neutral (health_components d))
             + score (hc_volatility (health_components d))
             + score (hc_sharpe_ratio (health_components d))
             + score (hc_leverage (health_components d))
       \<and> 0 \<le> health_score d \<and> health_score d \<le> 100
       \<and> (normalized_delta delta_exposure current_value < 0.05 \<longrightarrow>
            score (hc_sharpe_ratio (health_components d)) = 12.5)"
proof -
  let ?hc = "calculate_health_components rm current_value positions delta_exposure"
  have hc: "health_components d = ?hc" and hs: "health_score d = sum_of_scores ?hc"
    using dashboard_health [OF assms] by simp_all
  have b1: "0 \<le> score (hc_delta_neutral ?hc) \<and> score (hc_delta_neutral ?hc) \<le> 25"
    by (simp add: calculate_health_components_def Let_def rounded_component_bounds
        delta_block_bounds)
  have b2: "0 \<le> score (hc_volatility ?hc) \<and> score (hc_volatility ?hc) \<le> 25"
    by (simp add: calculate_health_components_def Let_def rounded_component_bounds
        volatility_block_bounds)
  have b3: "0 \<le> score (hc_sharpe_ratio ?hc) \<and> score (hc_sharpe_ratio ?hc) \<le> 25"
    by (simp add: calculate_health_components_def Let_def rounded_component_bounds
        sharpe_block_bounds)
  have b4: "0 \<le> score (hc_leverage ?hc) \<and> score (hc_leverage ?hc) \<le> 25"
    by (simp add: calculate_health_components_def Let_def rounded_component_bounds
        leverage_block_bounds)
  have n: "score (hc_sharpe_ratio ?hc) = 25 / 2"
    if "normalized_delta delta_exposure current_value < 0.05"
    using sharpe_block_neutral [OF that]
    by (simp add: calculate_health_components_def Let_def rounded_component_def
        py_round1_neutral)
  show ?thesis
    unfolding hc hs using b1 b2 b3 b4 n by (simp add: sum_of_scores_def)
qed

theorem health_scores_within_bounds_witness:
  "calculate_alert_dashboard test_risk_metrics 100000 test_positions test_prices 200
     = Inr test_dashboard
   \<and> normalized_delta 200 100000 < 0.05
   \<and> score (hc_sharpe_ratio (health_components test_dashboard)) = 12.5
   \<and> health_score test_dashboard = 25 + 19.6 + 12.5 + 23.6
   \<and> 0 \<le> health_score test_dashboard \<and> health_score test_dashboard \<le> 100"
  using health_scores_within_bounds [OF test_dashboard_value] test_dashboard_value
  by (simp add: normalized_delta_def test_dashboard_def)

subsection \<open>Liquidation assessment of the alert dashboard\<close>

lemma liquidation_loop_entries:
  "liquidation_loop acc ps prices = Inr rs \<Longrightarrow>
     \<exists>new. rs = acc @ new \<and> list_all2 (assessment_of prices) (filter is_assessed ps) new"
proof (induction ps arbitrary: acc)
  case Nil
  then show ?case by simp
next
  case (Cons pos ps)
  from Cons.prems obtain t where t: "position_type pos = Some t"
    by (auto split: option.splits)
  show ?case
  proof (cases "is_assessed pos")
    case False
    with t Cons.prems have "liquidation_loop acc ps prices = Inr rs"
      by (auto simp: is_assessed_def split: if_splits)
    from Cons.IH [OF this] False show ?thesis by simp
  next
    case True
    with t have kind: "(t = ''futures_long'' \<or> t = ''futures_short'') \<and> position_leverage pos > 1"
      by (simp add: is_assessed_def)
    with t Cons.prems obtain a where a: "asset pos = Some a"
      by (auto split: option.splits)
    define cp where "cp = assessed_price prices pos"
    define liq where "liq = liquidation_price_of t (entry_price_or_zero pos) (position_leverage pos)"
    define dist where "dist = distance_pct_of t cp liq"
    define r where "r = \<lparr>liq_asset = a, liq_position_type = t, liquidation_price = liq,
        liq_current_price = cp, price_distance_pct = \<bar>dist\<bar>,
        risk_level = level_of_distance dist\<rparr>"
    have cp_eq: "cp = (case prices (Pair_key a t) of None \<Rightarrow>
        (case entry_price pos of None \<Rightarrow> 0 | Some e \<Rightarrow> e) | Some p \<Rightarrow> p)"
      by (simp add: cp_def assessed_price_def a t entry_price_or_zero_def split: option.splits)
    have step: "liquidation_loop acc (pos # ps) prices
        = (if cp = 0 then Inl ZeroDivisionError else liquidation_loop (acc @ [r]) ps prices)"
      using kind
      by (auto simp: t a Let_def cp_eq r_def liq_def dist_def liquidation_price_of_def
          distance_pct_of_def level_of_distance_def entry_price_or_zero_def)
    with Cons.prems have rest: "liquidation_loop (acc @ [r]) ps prices = Inr rs"
      by (auto split: if_splits)
    from Cons.IH [OF rest] obtain new where new: "rs = (acc @ [r]) @ new"
      and all: "list_all2 (assessment_of prices) (filter is_assessed ps) new"
      by blast
    have "assessment_of prices pos r"
      by (simp add: assessment_of_def r_def t a cp_def liq_def dist_def)
    with new all True show ?thesis by simp
  qed
qed

lemma overall_liquidation_risk_levels:
  "overall_liquidation_risk rs =
     (if ''high'' \<in> set (map risk_level rs) then ''high''
      else if ''moderate'' \<in> set (map risk_level rs) then ''moderate'' else ''low'')"
proof -
  have h: "list_ex (\<lambda>r. risk_level r = l) rs \<longleftrightarrow> l \<in> set (map risk_level rs)" for l
    by (auto simp: list_ex_iff)
  show ?thesis
    unfolding overall_liquidation_risk_def h by (cases rs) simp_all
qed

lemma liquidation_loop_returns:
  assumes "\<forall>pos \<in> set ps. position_type pos \<noteq> None
             \<and> (is_assessed pos \<longrightarrow> asset pos \<noteq> None \<and> assessed_price prices pos \<noteq> 0)"
  shows "\<exists>rs. liquidation_loop acc ps prices = Inr rs"
  using assms
proof (induction ps arbitrary: acc)
  case Nil
  then show ?case by simp
next
  case (Cons pos ps)
  then show ?case
    by (auto simp: is_assessed_def assessed_price_def entry_price_or_zero_def Let_def
        split: option.splits)
qed

text \<open>
  Claim C9, as amended. Whenever the alert dashboard is returned, its liquidation entries
  are the assessments of the futures positions with a leverage above 1, in their order:
  the liquidation price is \<open>entry * (1 - 0.9 / leverage)\<close> for a futures-long and
  \<open>entry * (1 + 0.9 / leverage)\<close> for a futures-short position; the level is safe when the
  distance of the current price from the liquidation price, in percent of the current
  price, is above 50, moderate when it is above 25 and at most 50, and high when it is at
  most 25; the entry reports the absolute value of that distance. The overall risk is high
  when some entry is high, otherwise moderate when some entry is moderate, and otherwise
  low: also when every entry is safe.
\<close>

theorem liquidation_assessment:
  assumes "calculate_alert_dashboard rm current_value positions current_prices delta_exposure
             = Inr d"
  shows "list_all2 (assessment_of current_prices) (filter is_assessed positions)
           (liquidation_positions d)
       \<and> overall_risk d =
           (if ''high'' \<in> set (map risk_level (liquidation_positions d)) then ''high''
            else if ''moderate'' \<in> set (map risk_level (liquidation_positions d))
              then ''moderate''
            else ''low'')"
proof -
  from assms obtain rs where rs: "liquidation_loop [] positions current_prices = Inr rs"
    and d: "liquidation_positions d = rs" "overall_risk d = overall_liquidation_risk rs"
    by (auto simp: calculate_alert_dashboard_def Let_def split: sum.splits)
  from liquidation_loop_entries [OF rs] d show ?thesis
    by (simp add: overall_liquidation_risk_levels)
qed

theorem liquidation_assessment_witness:
  "calculate_alert_dashboard test_risk_metrics 100000 test_positions test_prices 200
     = Inr test_dashboard
   \<and> list_all2 (assessment_of test_prices) (filter is_assessed test_positions)
       (liquidation_positions test_dashboard)
   \<and> map risk_level (liquidation_positions test_dashboard) = [''moderate'']
   \<and> overall_risk test_dashboard = ''moderate''"
  using liquidation_assessment [OF test_dashboard_value] test_dashboard_value
  by (simp add: test_dashboard_def)

text \<open>
  The claim as it was stated fails where every assessed position is safe: a futures-long
  position entered at 2500 with leverage 1.5, at a current price of 2500, has its
  liquidation price at 1000 and a distance of 60 percent, which is safe; the worst level
  over the assessed positions is safe, and the overall risk that is reported is low.
\<close>

theorem overall_risk_all_safe_counterexample:
  "map_sum id (map risk_level \<circ> liquidation_positions)
     (calculate_alert_dashboard test_risk_metrics 100000
        [\<lparr>asset = Some ''ETH'', quantity = Some 10, position_type = Some ''futures_long'',
          entry_price = Some 2500, leverage = Some 1.5\<rparr>]
        [Pair_key ''ETH'' ''futures_long'' \<mapsto> 2500] 10) = Inr [''safe'']
   \<and> map_sum id overall_risk
     (calculate_alert_dashboard test_risk_metrics 100000
        [\<lparr>asset = Some ''ETH'', quantity = Some 10, position_type = Some ''futures_long'',
          entry_price = Some 2500, leverage = Some 1.5\<rparr>]
        [Pair_key ''ETH'' ''futures_long'' \<mapsto> 2500] 10) = Inr ''low''
   \<and> worst_level [''safe''] = ''safe''"
  by (simp add: calculate_alert_dashboard_def Let_def position_leverage_def
      overall_liquidation_risk_def worst_level_def)

subsection \<open>Filling a column\<close>

lemma length_ffill_from [simp]: "length (ffill_from p cells) = length cells"
  by (induction p cells rule: ffill_from.induct) simp_all

lemma ffill_from_Some_no_gap: "None \<notin> set (ffill_from (Some v) cells)"
proof (induction cells arbitrary: v)
  case Nil
  then show ?case by simp
next
  case (Cons c cells)
  then show ?case by (cases c) simp_all
qed

lemma ffill_leading:
  "ffill_from None cells
     = replicate (length (takeWhile (\<lambda>c. c = None) cells)) None
       @ ffill_from None (dropWhile (\<lambda>c. c = None) cells)"
proof (induction cells)
  case Nil
  then show ?case by simp
next
  case (Cons c cells)
  then show ?case by (cases c) simp_all
qed

lemma ffill_after_leading_no_gap:
  "None \<notin> set (ffill_from None (dropWhile (\<lambda>c. c = None) cells))"
proof -
  define rest where "rest = dropWhile (\<lambda>c. c = None) cells"
  have "None \<notin> set (ffill_from None rest)"
  proof (cases rest)
    case Nil
    then show ?thesis by simp
  next
    case (Cons c tail)
    then have "c \<noteq> None"
      unfolding rest_def by (metis (mono_tags, lifting) hd_dropWhile list.sel(1) list.simps(3))
    then obtain v where "c = Some v" by auto
    with Cons show ?thesis by (simp add: ffill_from_Some_no_gap)
  qed
  then show ?thesis by (simp add: rest_def)
qed

lemma filter_gaps_empty: "None \<notin> set cells \<Longrightarrow> filter (\<lambda>c. c = None) cells = []"
proof (induction cells)
  case Nil
  then show ?case by simp
next
  case (Cons c cells)
  then show ?case by (cases c) simp_all
qed

lemma isna_sum_ffill:
  "isna_sum (ffill cells) = length (takeWhile (\<lambda>c. c = None) cells)"
proof -
  have "filter (\<lambda>c. c = None) (ffill_from None (dropWhile (\<lambda>c. c = None) cells)) = []"
    using ffill_after_leading_no_gap [of cells] by (rule filter_gaps_empty)
  then show ?thesis
    unfolding isna_sum_def ffill_def by (subst ffill_leading) simp
qed

lemma isna_any_iff_sum: "isna_any cells \<longleftrightarrow> isna_sum cells > 0"
  by (auto simp: isna_any_def isna_sum_def filter_empty_conv)

lemma length_bfill [simp]: "length (bfill cells) = length cells"
  by (induction cells rule: bfill.induct) (auto split: list.splits)

lemma bfill_no_gap: "None \<notin> set cells \<Longrightarrow> bfill cells = cells"
  by (induction cells rule: bfill.induct) auto

lemma bfill_all_gaps: "bfill (replicate k None) = replicate k None"
proof (induction k)
  case 0
  then show ?case by simp
next
  case (Suc k)
  then show ?case by (cases k) simp_all
qed

lemma bfill_leading:
  "rest \<noteq> [] \<Longrightarrow> None \<notin> set rest \<Longrightarrow>
     bfill (replicate k None @ rest) = replicate k (hd rest) @ rest"
proof (induction k)
  case 0
  then show ?case by (simp add: bfill_no_gap)
next
  case (Suc k)
  then show ?case
    by (cases rest; cases k) (auto split: list.splits)
qed

lemma bfill_ffill_no_gap:
  assumes "Some v \<in> set cells"
  shows "None \<notin> set (bfill (ffill cells))"
proof -
  let ?rest = "ffill_from None (dropWhile (\<lambda>c. c = None) cells)"
  have "dropWhile (\<lambda>c. c = None) cells \<noteq> []"
    using assms by (auto simp: dropWhile_eq_Nil_conv)
  then have ne: "?rest \<noteq> []"
    by (metis length_0_conv length_ffill_from)
  have ng: "None \<notin> set ?rest" by (rule ffill_after_leading_no_gap)
  have hd: "hd ?rest \<noteq> None"
    using ne ng by (metis list.set_sel(1))
  have "bfill (ffill cells)
      = replicate (length (takeWhile (\<lambda>c. c = None) cells)) (hd ?rest) @ ?rest"
    unfolding ffill_def by (subst ffill_leading) (rule bfill_leading [OF ne ng])
  with ng hd show ?thesis by auto
qed

lemma fillna_zero_no_gap: "None \<notin> set (fillna_zero cells)"
  by (auto simp: fillna_zero_def split: option.splits)

lemma length_fillna_zero [simp]: "length (fillna_zero cells) = length cells"
  by (simp add: fillna_zero_def)

lemma length_ffill [simp]: "length (ffill cells) = length cells"
  by (simp add: ffill_def)

subsection \<open>The alignment loops in closed form\<close>

lemma matching_values_distinct:
  "distinct (map fst frame) \<Longrightarrow>
     matching_values frame t = (case map_of frame t of None \<Rightarrow> [] | Some v \<Rightarrow> [v])"
proof (induction frame)
  case Nil
  then show ?case by (simp add: matching_values_def)
next
  case (Cons row frame)
  obtain t' v where row: "row = (t', v)" by (cases row)
  from Cons.prems have d: "distinct (map fst frame)" and fresh: "t' \<notin> fst ` set frame"
    by (simp_all add: row)
  from fresh have "map_of frame t' = None"
    by (simp add: map_of_eq_None_iff)
  with Cons.IH [OF d] show ?case
    by (auto simp: matching_values_def row split: option.splits)
qed

lemma joined_cells_distinct:
  "distinct (map fst frame) \<Longrightarrow> joined_cells frame t = [map_of frame t]"
  by (simp add: joined_cells_def matching_values_distinct split: option.splits)

lemma repeat_rows_once:
  "length cells = length counts \<Longrightarrow> \<forall>n \<in> set counts. n = Suc 0 \<Longrightarrow>
     repeat_rows counts cells = cells"
  unfolding repeat_rows_def
  by (induction counts cells rule: list_induct2') simp_all

lemma merge_left_distinct:
  assumes "distinct (map fst frame)" and "table_ok aligned"
  shows "merge_left aligned name frame
           = aligned\<lparr>columns := columns aligned @ [(name, map (map_of frame) (timestamps aligned))]\<rparr>"
proof -
  let ?counts = "map (\<lambda>t. length (joined_cells frame t)) (timestamps aligned)"
  have ones: "\<forall>n \<in> set ?counts. n = Suc 0"
    using assms(1) by (simp add: joined_cells_distinct)
  have ts: "repeat_rows ?counts (timestamps aligned) = timestamps aligned"
    by (rule repeat_rows_once [OF _ ones]) simp
  have cols: "map (\<lambda>(c, cells). (c, repeat_rows ?counts cells)) (columns aligned)
                = columns aligned"
  proof (rule map_idI)
    fix x assume x: "x \<in> set (columns aligned)"
    obtain c cells where cx: "x = (c, cells)" by (cases x)
    with x assms(2) have "length cells = length ?counts"
      by (auto simp: table_ok_def list_all_iff)
    from repeat_rows_once [OF this ones] show "(case x of (c, cells) \<Rightarrow> (c, repeat_rows ?counts cells)) = x"
      by (simp add: cx)
  qed
  have "concat (map (joined_cells frame) grid) = map (map_of frame) grid" for grid
    using assms(1) by (induction grid) (simp_all add: joined_cells_distinct)
  then have new: "concat (map (joined_cells frame) (timestamps aligned))
               = map (map_of frame) (timestamps aligned)" .
  show ?thesis
    unfolding merge_left_def Let_def ts cols new by simp
qed


lemma update_other_columns:
  "name \<notin> fst ` set cs \<Longrightarrow>
     map (\<lambda>(c, cells). if c = name then (c, f cells) else (c, cells)) cs = cs"
  by (induction cs) auto

lemma update_column_appended:
  assumes "name \<notin> fst ` set cs" and "name \<notin> fst ` set after"
  shows "update_column name f \<lparr>timestamps = grid, columns = cs @ (name, cells) # after\<rparr>
           = \<lparr>timestamps = grid, columns = cs @ (name, f cells) # after\<rparr>"
  using assms by (simp add: update_column_def update_other_columns)

lemma column_cells_appended:
  assumes "name \<notin> fst ` set cs"
  shows "column_cells \<lparr>timestamps = grid, columns = cs @ (name, cells) # after\<rparr> name = cells"
proof -
  from assms have "map_of cs name = None"
    by (simp add: map_of_eq_None_iff)
  then show ?thesis
    by (simp add: column_cells_def map_add_def)
qed

lemma gaps_left_any:
  "isna_any (ffill (map (map_of frame) grid)) \<longleftrightarrow> gaps_left grid frame > 0"
  by (simp add: gaps_left_def isna_any_iff_sum)

lemma align_spot_closed_form:
  assumes "distinct (map fst spot_data)"
    and "\<forall>(a, frame) \<in> set spot_data. distinct (map fst frame)"
    and "\<forall>(a, frame) \<in> set spot_data. Spot_column a \<notin> fst ` set cs"
    and "table_ok \<lparr>timestamps = grid, columns = cs\<rparr>"
  shows "align_spot \<lparr>timestamps = grid, columns = cs\<rparr> warnings spot_data
           = (\<lparr>timestamps = grid, columns = cs @ spot_columns_of grid spot_data\<rparr>,
              warnings @ spot_warnings_of grid spot_data)"
  using assms
proof (induction spot_data arbitrary: cs warnings)
  case Nil
  then show ?case by (simp add: spot_columns_of_def spot_warnings_of_def)
next
  case (Cons item spot_data)
  obtain a frame where item: "item = (a, frame)" by (cases item)
  let ?joined = "map (map_of frame) grid"
  have frame: "distinct (map fst frame)" and fresh: "Spot_column a \<notin> fst ` set cs"
    using Cons.prems by (auto simp: item)
  have merged: "merge_left \<lparr>timestamps = grid, columns = cs\<rparr> (Spot_column a) frame
      = \<lparr>timestamps = grid, columns = cs @ [(Spot_column a, ?joined)]\<rparr>"
    using merge_left_distinct [OF frame Cons.prems(4)] by simp
  have filled: "update_column (Spot_column a) ffill
        \<lparr>timestamps = grid, columns = cs @ [(Spot_column a, ?joined)]\<rparr>
      = \<lparr>timestamps = grid, columns = cs @ [(Spot_column a, ffill ?joined)]\<rparr>"
    using update_column_appended [OF fresh, of "[]"] by simp
  have cells: "column_cells \<lparr>timestamps = grid, columns = cs @ [(Spot_column a, ffill ?joined)]\<rparr>
        (Spot_column a) = ffill ?joined"
    using column_cells_appended [OF fresh, where after = "[]"] by simp
  have bfilled: "update_column (Spot_column a) bfill
        \<lparr>timestamps = grid, columns = cs @ [(Spot_column a, ffill ?joined)]\<rparr>
      = \<lparr>timestamps = grid, columns = cs @ [(Spot_column a, bfill (ffill ?joined))]\<rparr>"
    using update_column_appended [OF fresh, of "[]"] by simp
  let ?cs' = "cs @ [(Spot_column a, price_cells grid frame)]"
  have step: "align_spot \<lparr>timestamps = grid, columns = cs\<rparr> warnings (item # spot_data)
      = align_spot \<lparr>timestamps = grid, columns = ?cs'\<rparr>
          (warnings @ (if gaps_left grid frame > 0 then [Spot_gap a (gaps_left grid frame)] else []))
          spot_data"
    by (simp add: item merged filled cells bfilled Let_def price_cells_def gaps_left_any
        gaps_left_def)
  have d': "distinct (map fst spot_data)"
    using Cons.prems(1) by simp
  have f': "\<forall>(a, frame) \<in> set spot_data. distinct (map fst frame)"
    using Cons.prems(2) by simp
  have n': "\<forall>(b, frame) \<in> set spot_data. Spot_column b \<notin> fst ` set ?cs'"
    using Cons.prems(1,3) by (force simp: item)
  have len: "length (price_cells grid frame) = length grid"
    by (simp add: price_cells_def Let_def)
  have ok': "table_ok \<lparr>timestamps = grid, columns = ?cs'\<rparr>"
    using Cons.prems(4) len by (simp add: table_ok_def)
  show ?case
    unfolding step
    by (subst Cons.IH [OF d' f' n' ok'])
       (simp add: spot_columns_of_def spot_warnings_of_def item)
qed

lemma distinct_mark_frame: "map fst (mark_frame frame) = map fst frame"
  by (induction frame) (auto simp: mark_frame_def)

lemma distinct_funding_frame: "map fst (funding_frame frame) = map fst frame"
  by (induction frame) (auto simp: funding_frame_def)

lemma length_price_cells [simp]: "length (price_cells grid frame) = length grid"
  by (simp add: price_cells_def Let_def)

lemma length_funding_cells [simp]: "length (funding_cells grid frame) = length grid"
  by (simp add: funding_cells_def Let_def)

lemma align_futures_closed_form:
  assumes "distinct (map fst futures_data)"
    and "\<forall>(a, frame) \<in> set futures_data. distinct (map fst frame)"
    and "\<forall>(a, frame) \<in> set futures_data.
           Futures_mark_column a \<notin> fst ` set cs \<and> Funding_column a \<notin> fst ` set cs"
    and "table_ok \<lparr>timestamps = grid, columns = cs\<rparr>"
  shows "align_futures \<lparr>timestamps = grid, columns = cs\<rparr> warnings futures_data
           = (\<lparr>timestamps = grid, columns = cs @ futures_columns_of grid futures_data\<rparr>,
              warnings @ futures_warnings_of grid futures_data)"
  using assms
proof (induction futures_data arbitrary: cs warnings)
  case Nil
  then show ?case by (simp add: futures_columns_of_def futures_warnings_of_def)
next
  case (Cons item futures_data)
  obtain a frame where item: "item = (a, frame)" by (cases item)
  let ?m = "Futures_mark_column a" and ?f = "Funding_column a"
  let ?jm = "map (map_of (mark_frame frame)) grid"
  let ?jf = "map (map_of (funding_frame frame)) grid"
  have dm: "distinct (map fst (mark_frame frame))"
    and df: "distinct (map fst (funding_frame frame))"
    using Cons.prems(2) by (simp_all add: item distinct_mark_frame distinct_funding_frame)
  have fresh_m: "?m \<notin> fst ` set cs" and fresh_f: "?f \<notin> fst ` set cs"
    using Cons.prems(3) by (auto simp: item)
  have fresh_f1: "?f \<notin> fst ` set (cs @ [(?m, cells)])" for cells
    using fresh_f by simp
  have a1: "update_column ?m ffill (merge_left \<lparr>timestamps = grid, columns = cs\<rparr> ?m (mark_frame frame))
      = \<lparr>timestamps = grid, columns = cs @ [(?m, ffill ?jm)]\<rparr>"
    using merge_left_distinct [OF dm Cons.prems(4)] update_column_appended [OF fresh_m, of "[]"]
    by simp
  have ok1: "table_ok \<lparr>timestamps = grid, columns = cs @ [(?m, ffill ?jm)]\<rparr>"
    using Cons.prems(4) by (simp add: table_ok_def)
  have a2: "update_column ?f ffill
        (merge_left \<lparr>timestamps = grid, columns = cs @ [(?m, ffill ?jm)]\<rparr> ?f (funding_frame frame))
      = \<lparr>timestamps = grid, columns = cs @ [(?m, ffill ?jm), (?f, ffill ?jf)]\<rparr>"
    using merge_left_distinct [OF df ok1] update_column_appended [OF fresh_f1, of "[]"]
    by simp
  have cm: "column_cells \<lparr>timestamps = grid, columns = cs @ [(?m, ffill ?jm), (?f, ffill ?jf)]\<rparr> ?m
      = ffill ?jm"
    using column_cells_appended [OF fresh_m] by simp
  have bm: "update_column ?m bfill \<lparr>timestamps = grid, columns = cs @ [(?m, ffill ?jm), (?f, ffill ?jf)]\<rparr>
      = \<lparr>timestamps = grid, columns = cs @ [(?m, bfill (ffill ?jm)), (?f, ffill ?jf)]\<rparr>"
    using update_column_appended [OF fresh_m, of "[(?f, ffill ?jf)]"] by simp
  have cf: "column_cells \<lparr>timestamps = grid, columns = cs @ [(?m, cells), (?f, ffill ?jf)]\<rparr> ?f
      = ffill ?jf" for cells
    using column_cells_appended [OF fresh_f1, where after = "[]"] by simp
  have zf: "update_column ?f fillna_zero \<lparr>timestamps = grid, columns = cs @ [(?m, cells), (?f, ffill ?jf)]\<rparr>
      = \<lparr>timestamps = grid, columns = cs @ [(?m, cells), (?f, fillna_zero (ffill ?jf))]\<rparr>" for cells
    using update_column_appended [OF fresh_f1, of "[]"] by simp
  let ?cs' = "cs @ [(?m, price_cells grid (mark_frame frame)),
                    (?f, funding_cells grid (funding_frame frame))]"
  let ?ws = "(if gaps_left grid (mark_frame frame) > 0
         then [Mark_gap a (gaps_left grid (mark_frame frame))] else [])
        @ (if gaps_left grid (funding_frame frame) > 0
           then [Funding_gap a (gaps_left grid (funding_frame frame))] else [])"
  have step: "align_futures \<lparr>timestamps = grid, columns = cs\<rparr> warnings (item # futures_data)
      = align_futures \<lparr>timestamps = grid, columns = ?cs'\<rparr> (warnings @ ?ws) futures_data"
    by (simp add: item Let_def a1 a2 cm bm cf zf price_cells_def funding_cells_def
        gaps_left_any gaps_left_def mark_frame_def [symmetric] funding_frame_def [symmetric])
  have d': "distinct (map fst futures_data)"
    using Cons.prems(1) by simp
  have f': "\<forall>(a, frame) \<in> set futures_data. distinct (map fst frame)"
    using Cons.prems(2) by simp
  have n': "\<forall>(b, frame) \<in> set futures_data.
      Futures_mark_column b \<notin> fst ` set ?cs' \<and> Funding_column b \<notin> fst ` set ?cs'"
    using Cons.prems(1,3) by (force simp: item)
  have ok': "table_ok \<lparr>timestamps = grid, columns = ?cs'\<rparr>"
    using Cons.prems(4) by (simp add: table_ok_def)
  show ?case
    unfolding step
    by (subst Cons.IH [OF d' f' n' ok'])
       (simp add: futures_columns_of_def futures_warnings_of_def item)
qed

subsection \<open>The daily timeline and the gaps at its beginning\<close>

lemma one_day_pos: "0 < one_day"
  by (simp add: one_day_def)

lemma date_range_sorted: "sorted_wrt (<) (date_range a b)"
proof -
  have "sorted_wrt (<) (map (\<lambda>k. a + int k * one_day) [0 ..< n])" for n
    by (simp add: sorted_wrt_map one_day_pos sorted_wrt_upt[THEN sorted_wrt_mono_rel, rotated])
  then show ?thesis by (simp add: date_range_def)
qed

lemma in_date_range:
  assumes "a \<le> t" and "t \<le> b" and "(t - a) mod one_day = 0"
  shows "t \<in> set (date_range a b)"
proof -
  define k where "k = (t - a) div one_day"
  have "(t - a) div one_day * one_day + (t - a) mod one_day = t - a"
    by (rule div_mult_mod_eq)
  with assms(3) have t: "t = a + k * one_day"
    by (simp add: k_def)
  have k0: "0 \<le> k"
    using assms(1) one_day_pos by (simp add: k_def pos_imp_zdiv_nonneg_iff)
  have "k \<le> (b - a) div one_day"
    unfolding k_def using assms(2) one_day_pos by (simp add: zdiv_mono1)
  then have "nat k < nat ((b - a) div one_day + 1)"
    using k0 by simp
  moreover have "t = a + int (nat k) * one_day"
    using t k0 by simp
  ultimately show ?thesis
    unfolding date_range_def by (auto simp: image_iff intro!: bexI [of _ "nat k"])
qed

lemma leading_rows_sorted:
  fixes grid :: "timestamp list"
  assumes "sorted_wrt (<) grid" and "F \<subseteq> set grid"
  shows "takeWhile (\<lambda>t. t \<notin> F) grid = filter (\<lambda>t. \<forall>s \<in> F. t < s) grid"
  using assms
proof (induction grid)
  case Nil
  then show ?case by simp
next
  case (Cons x grid)
  have later: "\<forall>y \<in> set grid. x < y" and sorted: "sorted_wrt (<) grid"
    using Cons.prems(1) by simp_all
  show ?case
  proof (cases "x \<in> F")
    case True
    have "\<not> (\<forall>s \<in> F. y < s)" if "y \<in> set grid" for y
    proof
      assume "\<forall>s \<in> F. y < s"
      with True have "y < x" by blast
      moreover from later that have "x < y" by blast
      ultimately show False by simp
    qed
    then have "filter (\<lambda>t. \<forall>s \<in> F. t < s) grid = []"
      by (simp add: filter_empty_conv)
    with True show ?thesis by auto
  next
    case False
    with Cons.prems(2) have sub: "F \<subseteq> set grid" by auto
    then have "\<forall>s \<in> F. x < s" using later by auto
    with False Cons.IH [OF sorted sub] show ?thesis by simp
  qed
qed

lemma gaps_left_leading:
  assumes "sorted_wrt (<) grid" and "fst ` set frame \<subseteq> set grid"
  shows "gaps_left grid frame = leading_gaps grid (map fst frame)"
proof -
  have "takeWhile (\<lambda>c. c = None) (map (map_of frame) grid)
      = map (map_of frame) (takeWhile (\<lambda>t. t \<notin> fst ` set frame) grid)"
    by (simp add: takeWhile_map comp_def map_of_eq_None_iff)
  then have "gaps_left grid frame = length (takeWhile (\<lambda>t. t \<notin> fst ` set frame) grid)"
    by (simp add: gaps_left_def isna_sum_ffill)
  also have "\<dots> = length (filter (\<lambda>t. \<forall>s \<in> fst ` set frame. t < s) grid)"
    by (simp add: leading_rows_sorted [OF assms])
  finally show ?thesis
    by (simp add: leading_gaps_def list_all_iff)
qed

lemma price_cells_no_gap:
  assumes "t \<in> set grid" and "t \<in> fst ` set frame"
  shows "None \<notin> set (price_cells grid frame)"
proof -
  from assms(2) obtain v where "map_of frame t = Some v"
    by (metis map_of_eq_None_iff not_None_eq)
  with assms(1) have some: "Some v \<in> set (map (map_of frame) grid)"
    by force
  show ?thesis
    using bfill_ffill_no_gap [OF some]
    by (auto simp: price_cells_def Let_def isna_any_def)
qed

lemma funding_cells_no_gap: "None \<notin> set (funding_cells grid frame)"
  by (simp add: funding_cells_def Let_def isna_any_def fillna_zero_no_gap)

lemma stamps_on_grid:
  assumes "t \<in> set stamps" and "list_all (\<lambda>t. t mod one_day = 0) stamps"
  shows "t \<in> set (date_range (Min (set stamps)) (Max (set stamps)))"
proof (rule in_date_range)
  show "Min (set stamps) \<le> t" using assms(1) by simp
  show "t \<le> Max (set stamps)" using assms(1) by simp
  have "Min (set stamps) \<in> set stamps"
    using assms(1) by (metis List.finite_set Min_in empty_iff)
  then have "Min (set stamps) mod one_day = 0" and "t mod one_day = 0"
    using assms by (auto simp: list_all_iff)
  then show "(t - Min (set stamps)) mod one_day = 0"
    by (simp add: mod_diff_eq [symmetric])
qed

subsection \<open>The aligned table\<close>

lemma spot_column_names:
  "map fst (spot_columns_of grid spot_data) = map (\<lambda>(a, frame). Spot_column a) spot_data"
  by (induction spot_data) (auto simp: spot_columns_of_def)

lemma futures_column_names:
  "map fst (futures_columns_of grid futures_data)
     = concat (map (\<lambda>(a, frame). [Futures_mark_column a, Funding_column a]) futures_data)"
  by (induction futures_data) (auto simp: futures_columns_of_def)

lemma spot_columns_no_futures:
  "Futures_mark_column a \<notin> fst ` set (spot_columns_of grid spot_data)"
  "Funding_column a \<notin> fst ` set (spot_columns_of grid spot_data)"
  by (auto simp: spot_columns_of_def)

lemma futures_columns_no_spot:
  "Spot_column a \<notin> fst ` set (futures_columns_of grid futures_data)"
  by (auto simp: futures_columns_of_def)

lemma table_ok_spot_columns:
  "table_ok \<lparr>timestamps = grid, columns = spot_columns_of grid spot_data\<rparr>"
  by (auto simp: table_ok_def spot_columns_of_def list_all_iff)

lemma align_time_series_closed_form:
  assumes "distinct (map fst spot_data)" and "distinct (map fst futures_data)"
    and "\<forall>(a, frame) \<in> set spot_data. distinct (map fst frame)"
    and "\<forall>(a, frame) \<in> set futures_data. distinct (map fst frame)"
    and "all_timestamps spot_data futures_data \<noteq> []"
  shows "align_time_series spot_data futures_data
           = Inr (\<lparr>timestamps = timeline spot_data futures_data,
                   columns = spot_columns_of (timeline spot_data futures_data) spot_data
                             @ futures_columns_of (timeline spot_data futures_data) futures_data\<rparr>,
                  spot_warnings_of (timeline spot_data futures_data) spot_data
                  @ futures_warnings_of (timeline spot_data futures_data) futures_data)"
proof -
  let ?grid = "timeline spot_data futures_data"
  have spot: "align_spot \<lparr>timestamps = ?grid, columns = []\<rparr> [] spot_data
      = (\<lparr>timestamps = ?grid, columns = spot_columns_of ?grid spot_data\<rparr>,
         spot_warnings_of ?grid spot_data)"
    using align_spot_closed_form [OF assms(1) assms(3), of "[]" ?grid "[]"]
    by (simp add: table_ok_def)
  have fresh: "\<forall>(a, frame) \<in> set futures_data.
      Futures_mark_column a \<notin> fst ` set (spot_columns_of ?grid spot_data)
      \<and> Funding_column a \<notin> fst ` set (spot_columns_of ?grid spot_data)"
    using spot_columns_no_futures by blast
  have futures: "align_futures \<lparr>timestamps = ?grid, columns = spot_columns_of ?grid spot_data\<rparr>
        (spot_warnings_of ?grid spot_data) futures_data
      = (\<lparr>timestamps = ?grid,
           columns = spot_columns_of ?grid spot_data @ futures_columns_of ?grid futures_data\<rparr>,
         spot_warnings_of ?grid spot_data @ futures_warnings_of ?grid futures_data)"
    by (rule align_futures_closed_form [OF assms(2) assms(4) fresh table_ok_spot_columns])
  show ?thesis
    using assms(5)
    by (simp add: align_time_series_def Let_def timeline_def [symmetric] spot futures)
qed

lemma align_time_series_no_data:
  "align_time_series spot_data futures_data = Inl e
     \<longleftrightarrow> e = NoDataAvailable \<and> set (all_timestamps spot_data futures_data) = {}"
  by (auto simp: align_time_series_def Let_def split: prod.splits)

lemma distinct_column_names:
  assumes "distinct (map fst spot_data)" and "distinct (map fst futures_data)"
  shows "distinct (map fst (spot_columns_of grid spot_data @ futures_columns_of grid futures_data))"
proof -
  have s: "distinct (map fst (spot_columns_of grid spot_data))"
    using assms(1)
    by (induction spot_data) (force simp: spot_columns_of_def)+
  have f: "distinct (map fst (futures_columns_of grid futures_data))"
    using assms(2)
    by (induction futures_data) (force simp: futures_columns_of_def)+
  have "fst ` set (spot_columns_of grid spot_data) \<inter> fst ` set (futures_columns_of grid futures_data) = {}"
    by (auto simp: spot_columns_of_def futures_columns_of_def)
  with s f show ?thesis by simp
qed

lemma column_cells_member:
  assumes "distinct (map fst cs)" and "(name, cells) \<in> set cs"
  shows "column_cells \<lparr>timestamps = grid, columns = cs\<rparr> name = cells"
  using assms by (simp add: column_cells_def)

lemma warnings_about_append [simp]:
  "warnings_about name (ws @ ws') = warnings_about name ws @ warnings_about name ws'"
  by (simp add: warnings_about_def)

lemma spot_warnings_other:
  "a \<notin> fst ` set spot_data \<Longrightarrow> warnings_about (Spot_column a) (spot_warnings_of grid spot_data) = []"
  by (induction spot_data) (auto simp: spot_warnings_of_def warnings_about_def)

lemma spot_warnings_about:
  assumes "distinct (map fst spot_data)" and "(a, frame) \<in> set spot_data"
  shows "warnings_about (Spot_column a) (spot_warnings_of grid spot_data)
           = expected_warning (Spot_column a) (gaps_left grid frame)"
  using assms
proof (induction spot_data)
  case Nil
  then show ?case by simp
next
  case (Cons item spot_data)
  obtain b other where item: "item = (b, other)" by (cases item)
  have split: "spot_warnings_of grid (item # spot_data)
      = (if gaps_left grid other > 0 then [Spot_gap b (gaps_left grid other)] else [])
        @ spot_warnings_of grid spot_data"
    by (simp add: spot_warnings_of_def item)
  show ?case
  proof (cases "(a, frame) = item")
    case True
    then have "a \<notin> fst ` set spot_data" using Cons.prems(1) by (auto simp: item)
    from spot_warnings_other [OF this] True show ?thesis
      unfolding split by (auto simp: item warnings_about_def expected_warning_def)
  next
    case False
    with Cons.prems have mem: "(a, frame) \<in> set spot_data" and "a \<noteq> b"
      by (auto simp: item rev_image_eqI)
    then show ?thesis
      unfolding split using Cons.IH [OF _ mem] Cons.prems(1)
      by (auto simp: warnings_about_def)
  qed
qed

lemma spot_warnings_not_futures:
  "warnings_about (Futures_mark_column a) (spot_warnings_of grid spot_data) = []"
  "warnings_about (Funding_column a) (spot_warnings_of grid spot_data) = []"
  by (induction spot_data) (auto simp: spot_warnings_of_def warnings_about_def)

lemma futures_warnings_not_spot:
  "warnings_about (Spot_column a) (futures_warnings_of grid futures_data) = []"
  by (induction futures_data) (auto simp: futures_warnings_of_def warnings_about_def)

lemma futures_warnings_other:
  "a \<notin> fst ` set futures_data \<Longrightarrow>
     warnings_about (Futures_mark_column a) (futures_warnings_of grid futures_data) = []
     \<and> warnings_about (Funding_column a) (futures_warnings_of grid futures_data) = []"
  by (induction futures_data) (auto simp: futures_warnings_of_def warnings_about_def)

lemma futures_warnings_about:
  assumes "distinct (map fst futures_data)" and "(a, frame) \<in> set futures_data"
  shows "warnings_about (Futures_mark_column a) (futures_warnings_of grid futures_data)
           = expected_warning (Futures_mark_column a) (gaps_left grid (mark_frame frame))
       \<and> warnings_about (Funding_column a) (futures_warnings_of grid futures_data)
           = expected_warning (Funding_column a) (gaps_left grid (funding_frame frame))"
  using assms
proof (induction futures_data)
  case Nil
  then show ?case by simp
next
  case (Cons item futures_data)
  obtain b other where item: "item = (b, other)" by (cases item)
  have split: "futures_warnings_of grid (item # futures_data)
      = ((if gaps_left grid (mark_frame other) > 0
          then [Mark_gap b (gaps_left grid (mark_frame other))] else [])
         @ (if gaps_left grid (funding_frame other) > 0
            then [Funding_gap b (gaps_left grid (funding_frame other))] else []))
        @ futures_warnings_of grid futures_data"
    by (simp add: futures_warnings_of_def item)
  show ?case
  proof (cases "(a, frame) = item")
    case True
    then have "a \<notin> fst ` set futures_data" using Cons.prems(1) by (auto simp: item)
    from futures_warnings_other [OF this] True show ?thesis
      unfolding split by (auto simp: item warnings_about_def expected_warning_def)
  next
    case False
    with Cons.prems have mem: "(a, frame) \<in> set futures_data" and "a \<noteq> b"
      by (auto simp: item rev_image_eqI)
    then show ?thesis
      unfolding split using Cons.IH [OF _ mem] Cons.prems(1)
      by (auto simp: warnings_about_def)
  qed
qed

lemma in_all_timestamps:
  "t \<in> set (all_timestamps spot_data futures_data)
     \<longleftrightarrow> (\<exists>item \<in> set spot_data. t \<in> set (map fst (snd item)))
         \<or> (\<exists>item \<in> set futures_data. t \<in> set (map fst (snd item)))"
  unfolding all_timestamps_def by (simp add: case_prod_unfold)

lemma daily_input_midnight:
  assumes "daily_input spot_data futures_data"
    and "t \<in> set (all_timestamps spot_data futures_data)"
  shows "t mod one_day = 0"
proof -
  from assms(2) consider
    item where "item \<in> set spot_data" "t \<in> set (map fst (snd item))"
    | item where "item \<in> set futures_data" "t \<in> set (map fst (snd item))"
    unfolding in_all_timestamps by blast
  then show ?thesis
  proof cases
    case 1
    from assms(1) 1(1) have "daily_stamps (map fst (snd item))"
      unfolding daily_input_def list_all_iff by (auto simp: case_prod_unfold)
    with 1(2) show ?thesis
      unfolding daily_stamps_def list_all_iff by blast
  next
    case 2
    from assms(1) 2(1) have "daily_stamps (map fst (snd item))"
      unfolding daily_input_def list_all_iff by (auto simp: case_prod_unfold)
    with 2(2) show ?thesis
      unfolding daily_stamps_def list_all_iff by blast
  qed
qed

lemma stamps_on_timeline:
  assumes "daily_input spot_data futures_data"
    and "t \<in> set (all_timestamps spot_data futures_data)"
  shows "t \<in> set (timeline spot_data futures_data)"
proof -
  have "list_all (\<lambda>t. t mod one_day = 0) (all_timestamps spot_data futures_data)"
    unfolding list_all_iff using daily_input_midnight [OF assms(1)] by blast
  from stamps_on_grid [OF assms(2) this] show ?thesis
    by (simp add: timeline_def)
qed

lemma spot_frame_on_timeline:
  assumes "daily_input spot_data futures_data" and "(a, frame) \<in> set spot_data"
  shows "fst ` set frame \<subseteq> set (timeline spot_data futures_data)"
proof
  fix t assume "t \<in> fst ` set frame"
  then have "t \<in> set (map fst (snd (a, frame)))" by simp
  with assms(2) have "t \<in> set (all_timestamps spot_data futures_data)"
    unfolding in_all_timestamps by blast
  from stamps_on_timeline [OF assms(1) this] show "t \<in> set (timeline spot_data futures_data)" .
qed

lemma futures_frame_on_timeline:
  assumes "daily_input spot_data futures_data" and "(a, frame) \<in> set futures_data"
  shows "fst ` set frame \<subseteq> set (timeline spot_data futures_data)"
proof
  fix t assume "t \<in> fst ` set frame"
  then have "t \<in> set (map fst (snd (a, frame)))" by simp
  with assms(2) have "t \<in> set (all_timestamps spot_data futures_data)"
    unfolding in_all_timestamps by blast
  from stamps_on_timeline [OF assms(1) this] show "t \<in> set (timeline spot_data futures_data)" .
qed

lemma timeline_sorted: "sorted_wrt (<) (timeline spot_data futures_data)"
  by (simp add: timeline_def date_range_sorted)

lemma daily_input_distinct:
  assumes "daily_input spot_data futures_data"
  shows "distinct (map fst spot_data)" and "distinct (map fst futures_data)"
    and "\<forall>(a, frame) \<in> set spot_data. distinct (map fst frame)"
    and "\<forall>(a, frame) \<in> set futures_data. distinct (map fst frame)"
  using assms unfolding daily_input_def daily_stamps_def list_all_iff by auto

lemma spot_column_member:
  "(a, frame) \<in> set spot_data \<Longrightarrow>
     (Spot_column a, price_cells grid frame)
       \<in> set (spot_columns_of grid spot_data @ futures_columns_of grid futures_data)"
  by (force simp: spot_columns_of_def)

lemma futures_column_member:
  assumes "(a, frame) \<in> set futures_data"
  shows "(Futures_mark_column a, price_cells grid (mark_frame frame))
           \<in> set (spot_columns_of grid spot_data @ futures_columns_of grid futures_data)"
    and "(Funding_column a, funding_cells grid (funding_frame frame))
           \<in> set (spot_columns_of grid spot_data @ futures_columns_of grid futures_data)"
  using assms by (force simp: futures_columns_of_def)+

lemma stamps_of_mark_frame: "fst ` set (mark_frame frame) = fst ` set frame"
  using distinct_mark_frame [of frame] by (metis list.set_map)

lemma stamps_of_funding_frame: "fst ` set (funding_frame frame) = fst ` set frame"
  using distinct_funding_frame [of frame] by (metis list.set_map)

lemma aligned_spot_column:
  assumes "daily_input spot_data futures_data"
    and "all_timestamps spot_data futures_data \<noteq> []"
    and "align_time_series spot_data futures_data = Inr (aligned, warnings)"
    and "(a, frame) \<in> set spot_data"
  shows "length (column_cells aligned (Spot_column a)) = length (timestamps aligned)"
    and "frame \<noteq> [] \<Longrightarrow> None \<notin> set (column_cells aligned (Spot_column a))"
    and "warnings_about (Spot_column a) warnings
           = expected_warning (Spot_column a) (leading_gaps (timestamps aligned) (map fst frame))"
proof -
  let ?grid = "timeline spot_data futures_data"
  note d = daily_input_distinct [OF assms(1)]
  from align_time_series_closed_form [OF d assms(2)] assms(3)
  have al: "aligned = \<lparr>timestamps = ?grid,
        columns = spot_columns_of ?grid spot_data @ futures_columns_of ?grid futures_data\<rparr>"
    and ws: "warnings = spot_warnings_of ?grid spot_data @ futures_warnings_of ?grid futures_data"
    by simp_all
  have cells: "column_cells aligned (Spot_column a) = price_cells ?grid frame"
    unfolding al
    by (rule column_cells_member [OF distinct_column_names [OF d(1,2)]
          spot_column_member [OF assms(4)]])
  have on: "fst ` set frame \<subseteq> set ?grid"
    by (rule spot_frame_on_timeline [OF assms(1,4)])
  show "length (column_cells aligned (Spot_column a)) = length (timestamps aligned)"
    unfolding cells by (simp add: al)
  show "None \<notin> set (column_cells aligned (Spot_column a))" if "frame \<noteq> []"
  proof -
    from that obtain t where t: "t \<in> fst ` set frame" by (cases frame) auto
    with on have "t \<in> set ?grid" by blast
    from price_cells_no_gap [OF this t] show ?thesis by (simp add: cells)
  qed
  have "warnings_about (Spot_column a) warnings
      = expected_warning (Spot_column a) (gaps_left ?grid frame)"
    unfolding ws
    by (simp add: spot_warnings_about [OF d(1) assms(4)] futures_warnings_not_spot)
  then show "warnings_about (Spot_column a) warnings
           = expected_warning (Spot_column a) (leading_gaps (timestamps aligned) (map fst frame))"
    by (simp add: gaps_left_leading [OF timeline_sorted on] al)
qed

lemma aligned_futures_columns:
  assumes "daily_input spot_data futures_data"
    and "all_timestamps spot_data futures_data \<noteq> []"
    and "align_time_series spot_data futures_data = Inr (aligned, warnings)"
    and "(a, frame) \<in> set futures_data"
  shows "length (column_cells aligned (Futures_mark_column a)) = length (timestamps aligned)"
    and "length (column_cells aligned (Funding_column a)) = length (timestamps aligned)"
    and "frame \<noteq> [] \<Longrightarrow> None \<notin> set (column_cells aligned (Futures_mark_column a))"
    and "None \<notin> set (column_cells aligned (Funding_column a))"
    and "warnings_about (Futures_mark_column a) warnings
           = expected_warning (Futures_mark_column a)
               (leading_gaps (timestamps aligned) (map fst frame))"
    and "warnings_about (Funding_column a) warnings
           = expected_warning (Funding_column a)
               (leading_gaps (timestamps aligned) (map fst frame))"
proof -
  let ?grid = "timeline spot_data futures_data"
  note d = daily_input_distinct [OF assms(1)]
  from align_time_series_closed_form [OF d assms(2)] assms(3)
  have al: "aligned = \<lparr>timestamps = ?grid,
        columns = spot_columns_of ?grid spot_data @ futures_columns_of ?grid futures_data\<rparr>"
    and ws: "warnings = spot_warnings_of ?grid spot_data @ futures_warnings_of ?grid futures_data"
    by simp_all
  have mark: "column_cells aligned (Futures_mark_column a) = price_cells ?grid (mark_frame frame)"
    unfolding al
    by (rule column_cells_member [OF distinct_column_names [OF d(1,2)]
          futures_column_member(1) [OF assms(4)]])
  have funding: "column_cells aligned (Funding_column a)
      = funding_cells ?grid (funding_frame frame)"
    unfolding al
    by (rule column_cells_member [OF distinct_column_names [OF d(1,2)]
          futures_column_member(2) [OF assms(4)]])
  have on: "fst ` set frame \<subseteq> set ?grid"
    by (rule futures_frame_on_timeline [OF assms(1,4)])
  have on_m: "fst ` set (mark_frame frame) \<subseteq> set ?grid"
    and on_f: "fst ` set (funding_frame frame) \<subseteq> set ?grid"
    using on by (simp_all add: stamps_of_mark_frame stamps_of_funding_frame)
  show "length (column_cells aligned (Futures_mark_column a)) = length (timestamps aligned)"
    unfolding mark by (simp add: al)
  show "length (column_cells aligned (Funding_column a)) = length (timestamps aligned)"
    unfolding funding by (simp add: al)
  show "None \<notin> set (column_cells aligned (Futures_mark_column a))" if "frame \<noteq> []"
  proof -
    from that obtain t where t: "t \<in> fst ` set frame" by (cases frame) auto
    with on have g: "t \<in> set ?grid" by blast
    from t have "t \<in> fst ` set (mark_frame frame)" by (simp add: stamps_of_mark_frame)
    from price_cells_no_gap [OF g this] show ?thesis by (simp add: mark)
  qed
  show "None \<notin> set (column_cells aligned (Funding_column a))"
    by (simp add: funding funding_cells_no_gap)
  have w: "warnings_about (Futures_mark_column a) warnings
        = expected_warning (Futures_mark_column a) (gaps_left ?grid (mark_frame frame))"
      "warnings_about (Funding_column a) warnings
        = expected_warning (Funding_column a) (gaps_left ?grid (funding_frame frame))"
    unfolding ws
    using futures_warnings_about [OF d(2) assms(4), of ?grid]
    by (simp_all add: spot_warnings_not_futures)
  show "warnings_about (Futures_mark_column a) warnings
           = expected_warning (Futures_mark_column a)
               (leading_gaps (timestamps aligned) (map fst frame))"
    using w(1)
    by (simp add: gaps_left_leading [OF timeline_sorted on_m] al distinct_mark_frame)
  show "warnings_about (Funding_column a) warnings
           = expected_warning (Funding_column a)
               (leading_gaps (timestamps aligned) (map fst frame))"
    using w(2)
    by (simp add: gaps_left_leading [OF timeline_sorted on_f] al distinct_funding_frame)
qed


lemma example_alignment:
  "align_time_series example_spot example_futures
   = Inr (example_aligned, [Spot_gap ''A'' 2, Mark_gap ''C'' 1, Funding_gap ''C'' 1])"
  by (simp add: align_time_series_def all_timestamps_def date_range_def one_day_def
      merge_left_def joined_cells_def matching_values_def repeat_rows_def update_column_def
      column_cells_def ffill_def isna_any_def isna_sum_def fillna_zero_def Let_def upt_rec
      example_spot_def example_futures_def example_aligned_def)

text \<open>
  The column of a frame without rows is outside that statement: nothing can fill it, and
  its cells stay empty although a warning is recorded.
\<close>

lemma empty_frame_alignment:
  "align_time_series [(''A'', [(0, 100)])] [(''B'', [])]
   = Inr (\<lparr>timestamps = [0],
           columns =
             [(Spot_column ''A'', [Some 100]),
              (Futures_mark_column ''B'', [None]),
              (Funding_column ''B'', [Some 0])]\<rparr>,
          [Mark_gap ''B'' 1, Funding_gap ''B'' 1])"
  by (simp add: align_time_series_def all_timestamps_def date_range_def one_day_def
      merge_left_def joined_cells_def matching_values_def repeat_rows_def update_column_def
      column_cells_def ffill_def isna_any_def isna_sum_def fillna_zero_def Let_def upt_rec)


subsection \<open>Fetching: a futures asset without funding rates\<close>

lemma process_spot_log:
  "futures_lines_about a (snd (process_spot d logged items)) = futures_lines_about a logged"
  by (induction d logged items rule: process_spot.induct)
     (simp_all add: futures_lines_about_def Let_def)

lemma process_futures_log:
  "snd (process_futures d logged items) = logged @ map futures_event items"
proof (induction items arbitrary: d logged)
  case Nil
  then show ?case by simp
next
  case (Cons item items)
  obtain a m f where item: "item = (a, m, f)" by (cases item)
  show ?case
    by (cases m; cases f) (simp_all add: item Cons.IH futures_event_def Let_def)
qed

lemma process_futures_other:
  "a \<notin> fst ` set items \<Longrightarrow> map_of (fst (process_futures d logged items)) a = map_of d a"
proof (induction items arbitrary: d logged)
  case Nil
  then show ?case by simp
next
  case (Cons item items)
  obtain b m f where item: "item = (b, m, f)" by (cases item)
  from Cons.prems have ab: "a \<noteq> b" and rest: "a \<notin> fst ` set items"
    by (auto simp: item)
  show ?case
    using ab by (cases m; cases f) (simp_all add: item Cons.IH [OF rest] Let_def update_conv')
qed

lemma process_futures_zero_funding:
  assumes "distinct (map fst items)" and "(a, Rows mark_rows, Rows []) \<in> set items"
    and "mark_rows \<noteq> []"
  shows "map_of (fst (process_futures d logged items)) a
           = Some (sort_key fst (map (\<lambda>(t, mark). (t, mark, Some 0)) mark_rows))"
  using assms(1,2)
proof (induction items arbitrary: d logged)
  case Nil
  then show ?case by simp
next
  case (Cons item items)
  obtain b m f where item: "item = (b, m, f)" by (cases item)
  show ?case
  proof (cases "item = (a, Rows mark_rows, Rows [])")
    case True
    then have "a \<notin> fst ` set items"
      using Cons.prems(1) by auto
    from process_futures_other [OF this] True assms(3) show ?thesis
      by (simp add: Let_def update_conv')
  next
    case False
    with Cons.prems have mem: "(a, Rows mark_rows, Rows []) \<in> set items"
      and d: "distinct (map fst items)"
      by auto
    show ?thesis
      by (cases m; cases f) (simp_all add: item Cons.IH [OF d mem] Let_def)
  qed
qed

lemma futures_lines_about_events:
  assumes "distinct (map fst items)" and "(a, m, f) \<in> set items"
  shows "futures_lines_about a (map futures_event items) = [futures_event (a, m, f)]"
  using assms
proof (induction items)
  case Nil
  then show ?case by simp
next
  case (Cons item items)
  obtain b m' f' where item: "item = (b, m', f')" by (cases item)
  have about: "futures_event_asset (snd (futures_event (b, m', f'))) = Some b"
    by (cases m'; cases f') (simp_all add: futures_event_def)
  have none: "futures_lines_about a (map futures_event xs) = []" if "a \<notin> fst ` set xs" for xs
    using that
  proof (induction xs)
    case Nil
    then show ?case by (simp add: futures_lines_about_def)
  next
    case (Cons x xs)
    obtain c m'' f'' where x: "x = (c, m'', f'')" by (cases x)
    have "futures_event_asset (snd (futures_event (c, m'', f''))) = Some c"
      by (cases m''; cases f'') (simp_all add: futures_event_def)
    with Cons show ?case
      by (auto simp: futures_lines_about_def x)
  qed
  show ?case
  proof (cases "a = b")
    case True
    with Cons.prems have "(m, f) = (m', f')" and "a \<notin> fst ` set items"
      by (auto simp: item rev_image_eqI)
    with none [of items] about True show ?thesis
      by (simp add: futures_lines_about_def item)
  next
    case False
    with Cons.prems have "(a, m, f) \<in> set items" and "distinct (map fst items)"
      by (auto simp: item)
    with Cons.IH about False show ?thesis
      by (simp add: futures_lines_about_def item)
  qed
qed

lemma zip_results:
  "zip xs (zip (map f xs) (map g xs)) = map (\<lambda>x. (x, f x, g x)) xs"
  by (induction xs) simp_all

lemma insort_key_map_same_key:
  assumes "\<And>x. fst (h x) = fst x"
  shows "insort_key fst (h x) (map h ys) = map h (insort_key fst x ys)"
  by (induction ys) (simp_all add: assms)

lemma sort_key_map_same_key:
  assumes "\<And>x. fst (h x) = fst x"
  shows "sort_key fst (map h xs) = map h (sort_key fst xs)"
  by (induction xs) (simp_all add: insort_key_map_same_key [OF assms])

lemma group_days_map:
  "group_days (map (\<lambda>(t, x). (t, g x)) rows)
     = map (\<lambda>(d, y, ys). (d, g y, map g ys)) (group_days rows)"
proof (induction rows)
  case Nil
  then show ?case by simp
next
  case (Cons row rows)
  obtain t x where row: "row = (t, x)" by (cases row)
  show ?case
    by (cases "group_days rows") (auto simp: row Cons.IH)
qed

lemma daily_futures_row_zero:
  "daily_futures_row (d, (y, Some 0), map (\<lambda>m. (m, Some 0)) ys) = [(d, last (y # ys), 0)]"
proof -
  have rates: "concat (map (\<lambda>(m, f). case f of None \<Rightarrow> [] | Some r \<Rightarrow> [r])
                  (map (\<lambda>m. (m, Some 0)) zs)) = replicate (length zs) (0::real)" for zs :: "real list"
    by (induction zs) simp_all
  have "last (map (\<lambda>m. (m, Some (0::real))) (y # ys)) = (last (y # ys), Some 0)"
    by (rule last_map) simp
  then have l: "fst (last ((y, Some (0::real)) # map (\<lambda>m. (m, Some 0)) ys)) = last (y # ys)"
    by simp
  show ?thesis
    unfolding daily_futures_row_def using rates [of "y # ys"] l
    by (simp add: Let_def sum_list_replicate)
qed

lemma daily_futures_rows_zero:
  "concat (map daily_futures_row
      (map (\<lambda>(d, y, ys). (d, (y, Some 0), map (\<lambda>m. (m, Some 0)) ys)) groups))
     = map (\<lambda>(d, mark). (d, mark, 0)) (map (\<lambda>(d, x, xs). (d, last (x # xs))) groups)"
proof (induction groups)
  case Nil
  then show ?case by simp
next
  case (Cons g groups)
  obtain d y ys where g: "g = (d, y, ys)" by (cases g)
  show ?case
    using Cons.IH daily_futures_row_zero [of d y ys] by (simp add: g)
qed

lemma daily_futures_frame_zero:
  "daily_futures_frame (sort_key fst (map (\<lambda>(t, mark). (t, mark, Some 0)) mark_rows))
     = map (\<lambda>(d, mark). (d, mark, 0)) (daily_spot_frame mark_rows)"
proof -
  let ?h = "\<lambda>(t, mark). (t, mark, Some (0::real))"
  have s: "sort_key fst (map ?h rows) = map ?h (sort_key fst rows)"
    for rows :: "(timestamp \<times> real) list"
    by (rule sort_key_map_same_key) (simp add: case_prod_unfold)
  have twice: "sort_key fst (sort_key fst rows) = sort_key fst rows"
    for rows :: "(timestamp \<times> real) list"
    by (rule sort_key_id_if_sorted) simp
  have g: "group_days (map ?h rows)
      = map (\<lambda>(d, y, ys). (d, (y, Some 0), map (\<lambda>m. (m, Some 0)) ys)) (group_days rows)"
    for rows :: "(timestamp \<times> real) list"
    using group_days_map [of "\<lambda>m. (m, Some (0::real))" rows] by simp
  have "daily_futures_frame (sort_key fst (map ?h mark_rows))
      = concat (map daily_futures_row (group_days (map ?h (sort_key fst mark_rows))))"
    by (simp only: daily_futures_frame_def s twice)
  then show ?thesis
    by (simp only: g daily_futures_rows_zero daily_spot_frame_def)
qed

lemma fetch_futures_part:
  "fetch_portfolio_data db assets lookback_days = (spot_data, futures_data, days, logged) \<Longrightarrow>
     futures_data
       = fst (process_futures []
                (snd (process_spot [] [] (zip assets (map (get_ohlcv_data db) assets))))
                (map (\<lambda>a. (a, get_mark_klines db a, get_funding_rates db a)) assets))
   \<and> logged
       = snd (process_spot [] [] (zip assets (map (get_ohlcv_data db) assets)))
         @ map futures_event (map (\<lambda>a. (a, get_mark_klines db a, get_funding_rates db a)) assets)
         @ [(INFO, Days_available days)]"
  by (auto simp: fetch_portfolio_data_def Let_def case_prod_beta zip_results
      process_futures_log)


lemma example_fetch:
  "fetch_portfolio_data example_db [''BTC''] 30
     = ([(''BTC'', [(0, 49900), (43200, 50050)])],
        [(''BTC'', [(0, 50000, Some 0), (28800, 50100, Some 0)])],
        0,
        [(INFO, Spot_fetched ''BTC'' 2), (INFO, Futures_fetched ''BTC'' 2 0),
         (INFO, Days_available 0)])"
  by (simp add: fetch_portfolio_data_def example_db_def Let_def one_day_def)


subsection \<open>Resampling gives daily frames\<close>

lemma day_of_div: "day_of t = (t div one_day) * one_day"
  by (simp add: day_of_def minus_mod_eq_div_mult)

lemma day_of_midnight: "day_of t mod one_day = 0"
  by (simp add: day_of_div)

lemma day_of_mono: "t \<le> t' \<Longrightarrow> day_of t \<le> day_of t'"
  unfolding day_of_div using one_day_pos
  by (simp add: zdiv_mono1 mult_right_mono)

lemma group_days_first:
  "group_days ((t, x) # rows) \<noteq> [] \<and> fst (hd (group_days ((t, x) # rows))) = day_of t"
  by (cases "group_days rows") (auto split: list.splits if_splits)

lemma group_days_sorted:
  "sorted (map fst rows) \<Longrightarrow> sorted_wrt (<) (map fst (group_days rows))"
proof (induction rows)
  case Nil
  then show ?case by simp
next
  case (Cons row rows)
  obtain t x where row: "row = (t, x)" by (cases row)
  from Cons.prems have sorted: "sorted (map fst rows)" and le: "\<forall>r \<in> set rows. t \<le> fst r"
    by (auto simp: row)
  note IH = Cons.IH [OF sorted]
  show ?case
  proof (cases "group_days rows")
    case Nil
    then show ?thesis by (simp add: row)
  next
    case (Cons g groups)
    obtain d y ys where g: "g = (d, y, ys)" by (cases g)
    have "rows \<noteq> []" using Cons by auto
    then obtain t' x' rows' where rows: "rows = (t', x') # rows'"
      by (cases rows) auto
    with group_days_first [of t' x' rows'] Cons g have d: "d = day_of t'" by simp
    from le rows have "t \<le> t'" by simp
    then have dle: "day_of t \<le> d" unfolding d by (rule day_of_mono)
    from IH Cons g have later: "\<forall>h \<in> set groups. d < fst h" and rest: "sorted_wrt (<) (map fst groups)"
      by auto
    show ?thesis
    proof (cases "d = day_of t")
      case True
      with Cons g IH show ?thesis by (simp add: row)
    next
      case False
      with dle have "day_of t < d" by simp
      with later have "\<forall>h \<in> set groups. day_of t < fst h" by force
      with False Cons g IH \<open>day_of t < d\<close> show ?thesis by (simp add: row)
    qed
  qed
qed

lemma group_days_midnight: "list_all (\<lambda>g. fst g mod one_day = 0) (group_days rows)"
proof (induction rows)
  case Nil
  then show ?case by simp
next
  case (Cons row rows)
  obtain t x where row: "row = (t, x)" by (cases row)
  from Cons.IH show ?case
    by (cases "group_days rows") (auto simp: row day_of_midnight)
qed

lemma group_days_daily:
  "daily_stamps (map fst (group_days (sort_key fst rows)))"
proof -
  have "sorted_wrt (<) (map fst (group_days (sort_key fst rows)))"
    by (rule group_days_sorted) simp
  then have "distinct (map fst (group_days (sort_key fst rows)))"
    using strict_sorted_iff by blast
  then show ?thesis
    using group_days_midnight [of "sort_key fst rows"]
    by (simp add: daily_stamps_def list_all_iff)
qed

lemma daily_spot_frame_daily: "daily_stamps (map fst (daily_spot_frame df))"
proof -
  have "map fst (daily_spot_frame df) = map fst (group_days (sort_key fst df))"
    by (simp add: daily_spot_frame_def case_prod_unfold comp_def)
  then show ?thesis by (simp add: group_days_daily)
qed

lemma daily_futures_rows_stamps:
  "map fst (concat (map daily_futures_row groups))
     = map fst (filter (\<lambda>g. daily_futures_row g \<noteq> []) groups)"
proof (induction groups)
  case Nil
  then show ?case by simp
next
  case (Cons g groups)
  obtain d x xs where g: "g = (d, x, xs)" by (cases g)
  show ?case
    using Cons.IH by (simp add: g daily_futures_row_def Let_def)
qed

lemma daily_stamps_filter:
  "daily_stamps (map fst groups) \<Longrightarrow> daily_stamps (map fst (filter P groups))"
  by (auto simp: daily_stamps_def list_all_iff distinct_map_filter)

lemma daily_futures_frame_daily: "daily_stamps (map fst (daily_futures_frame df))"
  unfolding daily_futures_frame_def daily_futures_rows_stamps
  by (rule daily_stamps_filter) (rule group_days_daily)

lemma set_update_subset: "set (AList.update k v al) \<subseteq> insert (k, v) (set al)"
  by (induction al) auto

lemma resample_spot_daily:
  assumes "distinct (map fst daily_spot)"
    and "list_all (\<lambda>(a, frame). daily_stamps (map fst frame)) daily_spot"
  shows "distinct (map fst (resample_spot daily_spot spot_data))
       \<and> list_all (\<lambda>(a, frame). daily_stamps (map fst frame)) (resample_spot daily_spot spot_data)"
  using assms
proof (induction daily_spot spot_data rule: resample_spot.induct)
  case (1 daily_spot)
  then show ?case by simp
next
  case (2 daily_spot a df rest)
  show ?case
  proof (cases "df = []")
    case True
    with 2 show ?thesis by simp
  next
    case False
    have d: "distinct (map fst (AList.update a (daily_spot_frame df) daily_spot))"
      using "2.prems"(1) by (rule distinct_update)
    have "set (AList.update a (daily_spot_frame df) daily_spot)
        \<subseteq> insert (a, daily_spot_frame df) (set daily_spot)"
      by (rule set_update_subset)
    then have l: "list_all (\<lambda>(a, frame). daily_stamps (map fst frame))
        (AList.update a (daily_spot_frame df) daily_spot)"
      using "2.prems"(2) daily_spot_frame_daily [of df]
      by (auto simp: list_all_iff)
    from "2.IH"(2) [OF False d l] False show ?thesis by simp
  qed
qed

lemma resample_futures_daily:
  assumes "distinct (map fst daily_futures)"
    and "list_all (\<lambda>(a, frame). daily_stamps (map fst frame)) daily_futures"
  shows "distinct (map fst (resample_futures daily_futures futures_data))
       \<and> list_all (\<lambda>(a, frame). daily_stamps (map fst frame))
           (resample_futures daily_futures futures_data)"
  using assms
proof (induction daily_futures futures_data rule: resample_futures.induct)
  case (1 daily_futures)
  then show ?case by simp
next
  case (2 daily_futures a df rest)
  show ?case
  proof (cases "df = []")
    case True
    with 2 show ?thesis by simp
  next
    case False
    have d: "distinct (map fst (AList.update a (daily_futures_frame df) daily_futures))"
      using "2.prems"(1) by (rule distinct_update)
    have "set (AList.update a (daily_futures_frame df) daily_futures)
        \<subseteq> insert (a, daily_futures_frame df) (set daily_futures)"
      by (rule set_update_subset)
    then have l: "list_all (\<lambda>(a, frame). daily_stamps (map fst frame))
        (AList.update a (daily_futures_frame df) daily_futures)"
      using "2.prems"(2) daily_futures_frame_daily [of df]
      by (auto simp: list_all_iff)
    from "2.IH"(2) [OF False d l] False show ?thesis by simp
  qed
qed

text \<open>
  So the frames that the risk profile hands to the alignment are always daily frames
  under distinct assets, which is what the statement about the alignment asks for.
\<close>

lemma resample_to_daily_is_daily:
  "resample_to_daily spot_data futures_data = (daily_spot, daily_futures) \<Longrightarrow>
     daily_input daily_spot daily_futures"
  using resample_spot_daily [of "[]" spot_data] resample_futures_daily [of "[]" futures_data]
  by (auto simp: resample_to_daily_def daily_input_def)

lemma prepared_data_is_daily:
  "prepared_data db positions lookback_days = (actual_days, daily_spot, daily_futures) \<Longrightarrow>
     daily_input daily_spot daily_futures"
  by (auto simp: prepared_data_def Let_def case_prod_beta
      intro!: resample_to_daily_is_daily [of _ _ daily_spot daily_futures])

subsection \<open>The warning about the availability of data\<close>

lemma complete_profile_warning:
  "complete_profile env positions aligned_data actual_days w = Inr resp \<Longrightarrow>
     data_availability_warning resp = w"
  by (auto simp: complete_profile_def split: sum.splits)

lemma complete_profile_nonfatal:
  "map_sum id (\<lambda>r. r\<lparr>data_availability_warning := w'\<rparr>)
       (complete_profile env positions aligned_data actual_days w)
     = complete_profile env positions aligned_data actual_days w'"
  by (simp add: complete_profile_def split: sum.splits)

lemma add_alignment_warnings_eq:
  "add_alignment_warnings (days_warning actual_days) alignment_warnings
     = availability_warning actual_days alignment_warnings"
  by (simp add: add_alignment_warnings_def days_warning_def availability_warning_def
      contributing_warnings_def Let_def)

lemma availability_warning_None:
  "availability_warning actual_days alignment_warnings = None
     \<longleftrightarrow> \<not> actual_days < 30 \<and> alignment_warnings = []"
  by (simp add: availability_warning_def contributing_warnings_def)

lemma calculate_risk_profile_stages:
  assumes "prepared_data db positions lookback_days = (actual_days, daily_spot, daily_futures)"
  shows "calculate_risk_profile env db positions lookback_days
           = (case validate_positions positions of
                Inl e \<Rightarrow> Inl e
              | Inr checked \<Rightarrow>
                  (case align_time_series daily_spot daily_futures of
                     Inl e \<Rightarrow> Inl e
                   | Inr (aligned_data, alignment_warnings) \<Rightarrow>
                       complete_profile env positions aligned_data actual_days
                         (availability_warning actual_days alignment_warnings)))"
  using assms
  by (auto simp: calculate_risk_profile_def prepared_data_def Let_def case_prod_beta
      add_alignment_warnings_eq split: sum.splits)

lemmas eval_defs =
  fetch_portfolio_data_def Let_def one_day_def resample_to_daily_def daily_spot_frame_def
  daily_futures_frame_def daily_futures_row_def day_of_def
  align_time_series_def all_timestamps_def date_range_def
  merge_left_def joined_cells_def matching_values_def repeat_rows_def update_column_def
  column_cells_def ffill_def isna_any_def isna_sum_def fillna_zero_def upt_rec
  merge_funding_def portfolio_assets_def


lemma example_prepared:
  "prepared_data example_db [example_position] 30
     = (0, [(''BTC'', [(0, 50050)])], [(''BTC'', [(0, 50100, 0)])])"
  by (simp add: prepared_data_def eval_defs example_db_def example_position_def)

lemma example_prepared_aligned:
  "align_time_series [(''BTC'', [(0, 50050)])] [(''BTC'', [(0, 50100, 0)])]
     = Inr (example_table, [])"
  by (simp add: eval_defs example_table_def)

lemma example_run:
  "calculate_risk_profile example_env example_db [example_position] 30 = Inr example_response"
  unfolding calculate_risk_profile_stages [OF example_prepared] example_prepared_aligned
  by (simp add: validate_positions_def example_position_def position_leverage_def
      complete_profile_def extract_current_prices_def calculate_portfolio_value_def
      calculate_position_value_def lookup_current_price_def value_by_type_def
      calculate_spot_value_def example_env_def calculate_sensitivity_table_def
      apply_price_shock_def calculate_delta_exposure_def availability_warning_def
      contributing_warnings_def days_message_def str_int_def str_nat.simps digit_def
      example_table_def example_response_def)


lemma two_spans_prepared:
  "prepared_data two_spans_db two_spans_positions 60
     = (10, [(''A'', [(0, 100), (2592000, 110)]), (''B'', [(0, 50), (864000, 55)])], [])"
  by (simp add: prepared_data_def eval_defs two_spans_db_def two_spans_positions_def)

lemma two_spans_aligned:
  "map_sum id snd
     (align_time_series
        [(''A'', [(0, 100), (2592000, 110)]), (''B'', [(0, 50), (864000, 55)])] []) = Inr []
   \<and> map_sum id (length \<circ> timestamps \<circ> fst)
     (align_time_series
        [(''A'', [(0, 100), (2592000, 110)]), (''B'', [(0, 50), (864000, 55)])] []) = Inr 31
   \<and> map_sum id (last \<circ> timestamps \<circ> fst)
     (align_time_series
        [(''A'', [(0, 100), (2592000, 110)]), (''B'', [(0, 50), (864000, 55)])] [])
       = Inr (30 * one_day)"
  by (simp add: eval_defs)

lemma two_spans_run:
  "map_sum id data_availability_warning
     (calculate_risk_profile example_env two_spans_db two_spans_positions 60)
   = Inr (Some ''Warning: Only 10 days of data available (recommended: 30+). Risk metrics may be unreliable.'')"
  unfolding calculate_risk_profile_stages [OF two_spans_prepared]
  by (simp add: eval_defs validate_positions_def two_spans_positions_def position_leverage_def
      complete_profile_def extract_current_prices_def calculate_portfolio_value_def
      calculate_position_value_def lookup_current_price_def value_by_type_def
      calculate_spot_value_def example_env_def calculate_sensitivity_table_def
      apply_price_shock_def calculate_delta_exposure_def availability_warning_def
      contributing_warnings_def days_message_def str_int_def str_nat.simps digit_def)


end
